theory Spec2Isabelle
  imports Complex_Main "HOL-Library.AList"
begin

section \<open>JavaScript values\<close>

text \<open>
  The values the evaluation pipeline of \<^verbatim>\<open>backend/index.js\<close> handles are plain data:
  what \<^verbatim>\<open>JSON.parse\<close> produces, what the provider's client returns or throws, and
  \<^verbatim>\<open>undefined\<close>. Numbers are modelled by their exact rational value, strings as lists
  of characters, and an object as the association list of its own properties, where
  the first binding of a key is the property's value.
\<close>

datatype jsval =
    JUndefined
  | JNull
  | JBool bool
  | JNum rat
  | JStr string
  | JArr "jsval list"
  | JObj "(string \<times> jsval) list"

text \<open>Truthiness, as \<^verbatim>\<open>if (v)\<close>, \<^verbatim>\<open>!v\<close> and \<^verbatim>\<open>||\<close> test it.\<close>

fun truthy :: "jsval \<Rightarrow> bool" where
  "truthy JUndefined = False"
| "truthy JNull = False"
| "truthy (JBool b) = b"
| "truthy (JNum n) = (n \<noteq> 0)"
| "truthy (JStr s) = (s \<noteq> [])"
| "truthy (JArr xs) = True"
| "truthy (JObj fs) = True"

fun nullish :: "jsval \<Rightarrow> bool" where
  "nullish JUndefined = True"
| "nullish JNull = True"
| "nullish v = False"

text \<open>\<^verbatim>\<open>a || b\<close> and \<^verbatim>\<open>a ?? b\<close> on values (the right operands in the source have no effects).\<close>

definition js_or :: "jsval \<Rightarrow> jsval \<Rightarrow> jsval" where
  "js_or a b = (if truthy a then a else b)"

definition js_coalesce :: "jsval \<Rightarrow> jsval \<Rightarrow> jsval" where
  "js_coalesce a b = (if nullish a then b else a)"

fun is_string :: "jsval \<Rightarrow> bool" where
  "is_string (JStr s) = True"
| "is_string v = False"

text \<open>
  Reading the property \<open>k\<close> of a value that is neither \<^verbatim>\<open>null\<close> nor \<^verbatim>\<open>undefined\<close>.
  The pipeline reads the names \<^verbatim>\<open>status\<close>, \<^verbatim>\<open>error\<close>, \<^verbatim>\<open>code\<close>, \<^verbatim>\<open>message\<close>,
  \<^verbatim>\<open>candidates\<close>, \<^verbatim>\<open>content\<close>, \<^verbatim>\<open>parts\<close>, \<^verbatim>\<open>text\<close>, \<^verbatim>\<open>output\<close>, \<^verbatim>\<open>topic\<close>,
  \<^verbatim>\<open>question\<close>, \<^verbatim>\<open>answer\<close> and the index \<^verbatim>\<open>0\<close>. None of the names is defined on a
  built-in prototype, so on an array, a string, a number or a boolean a name reads
  \<^verbatim>\<open>undefined\<close>; the index \<^verbatim>\<open>0\<close> reads the first element of an array, the first
  character of a string and the property \<^verbatim>\<open>"0"\<close> of an object.
\<close>

fun get_field :: "jsval \<Rightarrow> string \<Rightarrow> jsval" where
  "get_field (JObj fs) k = (case map_of fs k of Some v \<Rightarrow> v | None \<Rightarrow> JUndefined)"
| "get_field v k = JUndefined"

fun get_first :: "jsval \<Rightarrow> jsval" where
  "get_first (JArr xs) = (case xs of [] \<Rightarrow> JUndefined | x # _ \<Rightarrow> x)"
| "get_first (JStr s) = (case s of [] \<Rightarrow> JUndefined | c # _ \<Rightarrow> JStr [c])"
| "get_first (JObj fs) = (case map_of fs ''0'' of Some v \<Rightarrow> v | None \<Rightarrow> JUndefined)"
| "get_first v = JUndefined"

text \<open>Optional chaining: \<^verbatim>\<open>v?.k\<close> and \<^verbatim>\<open>v?.[0]\<close> read \<^verbatim>\<open>undefined\<close> from a nullish value.\<close>

definition opt_field :: "jsval \<Rightarrow> string \<Rightarrow> jsval" where
  "opt_field v k = (if nullish v then JUndefined else get_field v k)"

definition opt_first :: "jsval \<Rightarrow> jsval" where
  "opt_first v = (if nullish v then JUndefined else get_first v)"

text \<open>
  Plain access \<^verbatim>\<open>v.k\<close> and \<^verbatim>\<open>v[0]\<close> throws a \<^verbatim>\<open>TypeError\<close> on a nullish value. A
  thrown value is a value; an error object is modelled by its \<^verbatim>\<open>message\<close> property
  (the wording of a \<^verbatim>\<open>TypeError\<close> is the engine's; nothing below depends on it beyond
  its not mentioning an overload).
\<close>

definition new_Error :: "string \<Rightarrow> jsval" where
  "new_Error msg = JObj [(''message'', JStr msg)]"

definition TypeError_nullish :: jsval where
  "TypeError_nullish = new_Error ''Cannot read properties of undefined''"

definition dot_field :: "jsval \<Rightarrow> string \<Rightarrow> jsval + jsval" where
  "dot_field v k = (if nullish v then Inl TypeError_nullish else Inr (get_field v k))"

definition dot_first :: "jsval \<Rightarrow> jsval + jsval" where
  "dot_first v = (if nullish v then Inl TypeError_nullish else Inr (get_first v))"

text \<open>Sequencing of computations that may throw (\<open>Inl\<close> is the thrown value).\<close>

definition bind_thrown :: "jsval + 'a \<Rightarrow> ('a \<Rightarrow> jsval + 'b) \<Rightarrow> jsval + 'b" where
  "bind_thrown m f = (case m of Inl e \<Rightarrow> Inl e | Inr v \<Rightarrow> f v)"


section \<open>Double-precision arithmetic\<close>

text \<open>
  JavaScript numbers are IEEE 754 binary64 values, and an arithmetic operation gives the
  exact result rounded to the nearest of them, a tie going to the one with an even
  significand. A finite double is a rational number, and the rounding is modelled on
  the rationals, for results of magnitude below \<open>2 ^ 1024\<close> (the wrapper multiplies a
  number below 1 by 200). The doubles around \<open>x\<close> are the multiples of
  \<open>2 ^ quantum x\<close>: the significand has 53 bits, and the least quantum, that of the
  subnormal numbers, is \<open>2 ^ - 1074\<close>.
\<close>

definition round_half_even :: "rat \<Rightarrow> int" where
  "round_half_even y =
     (let n = \<lfloor>y\<rfloor>; f = y - of_int n in
      if f < 1 / 2 then n else if 1 / 2 < f then n + 1 else if even n then n else n + 1)"

text \<open>
  The greatest \<open>q\<close> from \<open>- 1074\<close> up to \<open>k - 1074\<close> with \<open>2 ^ (q + 52) \<le> x\<close>, and
  \<open>- 1074\<close> when there is none.
\<close>

fun quantum_from :: "nat \<Rightarrow> rat \<Rightarrow> int" where
  "quantum_from 0 x = - 1074"
| "quantum_from (Suc k) x =
     (if 2 powi (int (Suc k) - 1022) \<le> x then int (Suc k) - 1074 else quantum_from k x)"

definition quantum :: "rat \<Rightarrow> int" where
  "quantum x = quantum_from 2045 \<bar>x\<bar>"

definition double_round :: "rat \<Rightarrow> rat" where
  "double_round x = of_int (round_half_even (x / 2 powi quantum x)) * 2 powi quantum x"

definition is_double :: "rat \<Rightarrow> bool" where
  "is_double x \<longleftrightarrow> \<bar>x\<bar> < 2 powi 1024 \<and> double_round x = x"


section \<open>The retry wrapper\<close>

text \<open>
  \<^verbatim>\<open>withRetries(fn, { retries = 4, minDelay = 500, maxDelay = 6000 } = {})\<close>.

  The operation \<^verbatim>\<open>fn\<close> is an effectful function without arguments; all that
  \<^verbatim>\<open>withRetries\<close> observes of it is the outcome of each successive invocation, so it is
  modelled as the sequence of these outcomes: \<open>fn i\<close> is what the invocation number
  \<open>i\<close> (counted from 0) does. Likewise \<open>random i\<close> is what the call number \<open>i\<close> of
  \<^verbatim>\<open>Math.random()\<close> returns, a double; \<^verbatim>\<open>Math.random() * 200\<close> is the product rounded to
  a double. The retry budget is a count; the delays are whole milliseconds, on which
  the operations of the source are exact.
\<close>

datatype outcome = Resolves jsval | Rejects jsval

record retry_options =
  retries :: nat
  minDelay :: int
  maxDelay :: int

definition default_options :: retry_options where
  "default_options = \<lparr>retries = 4, minDelay = 500, maxDelay = 6000\<rparr>"

text \<open>
  One entry per pass through the \<^verbatim>\<open>catch\<close> block that retries: the value of
  \<^verbatim>\<open>attempt\<close> after its increment, the \<^verbatim>\<open>delay\<close> and \<^verbatim>\<open>jitter\<close> computed there, and
  the number of milliseconds \<^verbatim>\<open>setTimeout\<close> is given.
\<close>

record retry_event =
  ev_attempt :: nat
  ev_delay :: int
  ev_jitter :: int
  ev_timeout :: int

text \<open>
  The result of a run: the value returned (\<open>Inr\<close>) or thrown (\<open>Inl\<close>), how many times
  \<^verbatim>\<open>fn\<close> was invoked, and the retries in the order they happened.
\<close>

record retry_run =
  result :: "jsval + jsval"
  calls :: nat
  events :: "retry_event list"

text \<open>\<^verbatim>\<open>const status = err?.status || err?.error?.code || err?.code || null;\<close>\<close>

definition error_status :: "jsval \<Rightarrow> jsval" where
  "error_status err =
     js_or (js_or (js_or (opt_field err ''status'')
                         (opt_field (opt_field err ''error'') ''code''))
                  (opt_field err ''code''))
           JNull"

text \<open>\<^verbatim>\<open>status === 429 || status === "RESOURCE_EXHAUSTED" || status === "TOO_MANY_REQUESTS"\<close>\<close>

definition retryable_status :: "jsval \<Rightarrow> bool" where
  "retryable_status status \<longleftrightarrow>
     status = JNum 429 \<or> status = JStr ''RESOURCE_EXHAUSTED'' \<or> status = JStr ''TOO_MANY_REQUESTS''"

definition exhausted_error :: jsval where
  "exhausted_error = new_Error ''Model service overloaded. Retries exhausted.''"

text \<open>
  The \<^verbatim>\<open>while (attempt < retries)\<close> loop. Its state is \<^verbatim>\<open>attempt\<close>, the number of
  invocations of \<^verbatim>\<open>fn\<close> made so far and the retries made so far.
\<close>

function withRetries_loop ::
  "(nat \<Rightarrow> outcome) \<Rightarrow> (nat \<Rightarrow> rat) \<Rightarrow> retry_options \<Rightarrow> nat \<Rightarrow> nat \<Rightarrow> retry_event list \<Rightarrow> retry_run"
where
  "withRetries_loop fn random opts attempt ncalls evs =
     (if attempt < retries opts then
        (case fn ncalls of
           Resolves v \<Rightarrow> \<lparr>result = Inr v, calls = Suc ncalls, events = evs\<rparr>
         | Rejects err \<Rightarrow>
             (let status = error_status err in
              if \<not> retryable_status status
              then \<lparr>result = Inl err, calls = Suc ncalls, events = evs\<rparr>
              else
                (let attempt' = attempt + 1;
                     delay = min (maxDelay opts)
                                 \<lfloor>(of_int (minDelay opts) :: rat) * 2 ^ (attempt' - 1)\<rfloor>;
                     jitter = \<lfloor>double_round (random (length evs) * 200)\<rfloor>
                 in withRetries_loop fn random opts attempt' (Suc ncalls)
                      (evs @ [\<lparr>ev_attempt = attempt', ev_delay = delay, ev_jitter = jitter,
                                ev_timeout = delay + jitter\<rparr>]))))
      else \<lparr>result = Inl exhausted_error, calls = ncalls, events = evs\<rparr>)"
  by pat_completeness auto
termination
  by (relation "measure (\<lambda>(fn, random, opts, attempt, ncalls, evs). retries opts - attempt)") auto

definition withRetries :: "(nat \<Rightarrow> outcome) \<Rightarrow> (nat \<Rightarrow> rat) \<Rightarrow> retry_options \<Rightarrow> retry_run" where
  "withRetries fn random opts = withRetries_loop fn random opts 0 0 []"

text \<open>An invocation that fails with an error the wrapper retries.\<close>

definition retryable_failure :: "outcome \<Rightarrow> bool" where
  "retryable_failure out =
     (case out of Resolves v \<Rightarrow> False | Rejects err \<Rightarrow> retryable_status (error_status err))"


text \<open>
  What one pass through the retrying \<^verbatim>\<open>catch\<close> block records when \<^verbatim>\<open>attempt\<close> has the value
  \<open>attempt\<close> on entry and it is the call number \<open>n\<close> of \<^verbatim>\<open>Math.random()\<close>; the floor
  of a whole number of milliseconds is that number.
\<close>

definition next_event :: "(nat \<Rightarrow> rat) \<Rightarrow> retry_options \<Rightarrow> nat \<Rightarrow> nat \<Rightarrow> retry_event" where
  "next_event random opts attempt n =
     \<lparr>ev_attempt = Suc attempt,
      ev_delay = min (maxDelay opts) (minDelay opts * 2 ^ attempt),
      ev_jitter = \<lfloor>double_round (random n * 200)\<rfloor>,
      ev_timeout =
        min (maxDelay opts) (minDelay opts * 2 ^ attempt) + \<lfloor>double_round (random n * 200)\<rfloor>\<rparr>"


section \<open>The text extractor\<close>

text \<open>
  A chain of property reads such as \<^verbatim>\<open>response?.candidates?.[0]?.content\<close> is a list
  of accesses, applied from the left.
\<close>

datatype access = Field string | First

fun opt_access :: "jsval \<Rightarrow> access \<Rightarrow> jsval" where
  "opt_access v (Field k) = opt_field v k"
| "opt_access v First = opt_first v"

fun dot_access :: "jsval \<Rightarrow> access \<Rightarrow> jsval + jsval" where
  "dot_access v (Field k) = dot_field v k"
| "dot_access v First = dot_first v"

text \<open>Every link optional (\<^verbatim>\<open>?.\<close>): the chain never throws.\<close>

fun opt_chain :: "jsval \<Rightarrow> access list \<Rightarrow> jsval" where
  "opt_chain v [] = v"
| "opt_chain v (a # as) = opt_chain (opt_access v a) as"

text \<open>Every link plain (\<^verbatim>\<open>.\<close>): the chain throws at the first nullish value it reads from.\<close>

fun dot_chain :: "jsval \<Rightarrow> access list \<Rightarrow> jsval + jsval" where
  "dot_chain v [] = Inr v"
| "dot_chain v (a # as) = bind_thrown (dot_access v a) (\<lambda>w. dot_chain w as)"

definition candidate_parts_text :: "access list" where
  "candidate_parts_text =
     [Field ''candidates'', First, Field ''content'', Field ''parts'', First, Field ''text'']"

definition candidate_content_text :: "access list" where
  "candidate_content_text = [Field ''candidates'', First, Field ''content'', Field ''text'']"

definition output_content_text :: "access list" where
  "output_content_text = [Field ''output'', First, Field ''content'', First, Field ''text'']"

text \<open>The body of the \<^verbatim>\<open>try\<close> block of \<^verbatim>\<open>extractTextFromResponse\<close>.\<close>

definition extractTextFromResponse_try :: "jsval \<Rightarrow> jsval + jsval" where
  "extractTextFromResponse_try response =
     (if truthy (opt_chain response candidate_parts_text)
      then dot_chain response candidate_parts_text
      else if truthy (opt_chain response candidate_content_text)
      then dot_chain response candidate_content_text
      else if truthy (opt_chain response output_content_text)
      then dot_chain response output_content_text
      else if is_string response then Inr response
      else if truthy (opt_field response ''text'') then dot_field response ''text''
      else Inr JNull)"

text \<open>\<^verbatim>\<open>try { ... } catch { return null; }\<close>\<close>

definition extractTextFromResponse :: "jsval \<Rightarrow> jsval" where
  "extractTextFromResponse response =
     (case extractTextFromResponse_try response of Inl e \<Rightarrow> JNull | Inr v \<Rightarrow> v)"

text \<open>
  The extractor as the specification words it: the five shapes in their priority order,
  each giving the value found there (\<^verbatim>\<open>undefined\<close> when the shape is absent), and the
  result is the first non-empty one, \<^verbatim>\<open>null\<close> when there is none. A value is non-empty
  when it is truthy (for a string: when it has a character).
\<close>

definition response_shapes :: "jsval \<Rightarrow> jsval list" where
  "response_shapes response =
     [opt_chain response candidate_parts_text,
      opt_chain response candidate_content_text,
      opt_chain response output_content_text,
      (if is_string response then response else JUndefined),
      opt_field response ''text'']"

definition extractText_spec :: "jsval \<Rightarrow> jsval" where
  "extractText_spec response =
     (case filter truthy (response_shapes response) of [] \<Rightarrow> JNull | v # _ \<Rightarrow> v)"


section \<open>The tolerant JSON parser\<close>

text \<open>
  \<^verbatim>\<open>text.match(/{[\s\S]*}/)\<close>: the leftmost match of an opening brace, any characters
  (as many as possible), and a closing brace.

  \<open>star_then_close s\<close> matches \<^verbatim>\<open>[\s\S]*}\<close> at the start of \<open>s\<close>: the star prefers
  to take one more character and gives it back only when the rest cannot match.
\<close>

fun star_then_close :: "string \<Rightarrow> string option" where
  "star_then_close [] = None"
| "star_then_close (c # cs) =
     (case star_then_close cs of
        Some m \<Rightarrow> Some (c # m)
      | None \<Rightarrow> if c = CHR ''}'' then Some [c] else None)"

fun match_here :: "string \<Rightarrow> string option" where
  "match_here [] = None"
| "match_here (c # cs) =
     (if c = CHR ''{'' then map_option (Cons c) (star_then_close cs) else None)"

fun regex_match :: "string \<Rightarrow> string option" where
  "regex_match [] = None"
| "regex_match (c # cs) =
     (case match_here (c # cs) of Some m \<Rightarrow> Some m | None \<Rightarrow> regex_match cs)"

text \<open>The two objects \<^verbatim>\<open>safeParseJSON\<close> returns.\<close>

definition parse_success :: "jsval \<Rightarrow> jsval" where
  "parse_success parsed = JObj [(''ok'', JBool True), (''data'', parsed)]"

definition parse_failure :: "string \<Rightarrow> jsval \<Rightarrow> jsval" where
  "parse_failure reason rawtext =
     JObj [(''ok'', JBool False), (''error'', JStr reason), (''raw'', rawtext)]"

definition no_text_to_parse :: jsval where
  "no_text_to_parse = JObj [(''ok'', JBool False), (''error'', JStr ''No text to parse'')]"

text \<open>
  \<^verbatim>\<open>safeParseJSON(text)\<close>. \<^verbatim>\<open>JSON.parse\<close> is the platform's: it is the parameter \<open>parse\<close>,
  which gives \<open>None\<close> where \<^verbatim>\<open>JSON.parse\<close> throws.
\<close>

fun safeParseJSON :: "(string \<Rightarrow> jsval option) \<Rightarrow> jsval \<Rightarrow> jsval" where
  "safeParseJSON parse (JStr text) =
     (if text = [] then no_text_to_parse
      else
        (case parse text of
           Some parsed \<Rightarrow> parse_success parsed
         | None \<Rightarrow>
             (case regex_match text of
                Some m \<Rightarrow>
                  (case parse m of
                     Some parsed \<Rightarrow> parse_success parsed
                   | None \<Rightarrow> parse_failure ''Found JSON-like block but failed to parse'' (JStr m))
              | None \<Rightarrow> parse_failure ''Response is not valid JSON'' (JStr text))))"
| "safeParseJSON parse text = no_text_to_parse"

text \<open>
  The brace-delimited block as the glossary of the specification words it: from the
  first opening brace to the closing brace that matches it, found by counting the
  nesting depth.
\<close>

fun upto_matching_close :: "nat \<Rightarrow> string \<Rightarrow> string option" where
  "upto_matching_close depth [] = None"
| "upto_matching_close depth (c # cs) =
     (if c = CHR ''{'' then map_option (Cons c) (upto_matching_close (Suc depth) cs)
      else if c = CHR ''}'' then
        (if depth = 0 then Some [c] else map_option (Cons c) (upto_matching_close (depth - 1) cs))
      else map_option (Cons c) (upto_matching_close depth cs))"

definition matching_brace_block :: "string \<Rightarrow> string option" where
  "matching_brace_block text =
     (case dropWhile (\<lambda>c. c \<noteq> CHR ''{'') text of
        [] \<Rightarrow> None
      | b # rest \<Rightarrow> map_option (Cons b) (upto_matching_close 0 rest))"


section \<open>A model of the platform's JSON parser\<close>

text \<open>
  \<^verbatim>\<open>JSON.parse\<close> belongs to the language, not to the repository. The properties of
  \<^verbatim>\<open>safeParseJSON\<close> are proved for every parser; the examples of the specification are
  run on the model below, which follows the JSON grammar (ECMA-404): a lexer to
  tokens and a stack automaton over the tokens. A number is its exact value (the
  engine rounds it to the nearest double, and gives \<^verbatim>\<open>Infinity\<close> beyond the range of the
  doubles; the numbers of the examples are small integers, which are doubles), a
  \<^verbatim>\<open>\uXXXX\<close> escape becomes the UTF-8 bytes of its code unit, and a key that occurs
  twice keeps its first place and its last value. Members stay in the order of the
  text (the engine lists integer-like keys first); the order is read by no property
  below.
\<close>

datatype token =
    TLBrace | TRBrace | TLBrack | TRBrack | TColon | TComma
  | TString string | TNumber rat | TTrue | TFalse | TNull

definition is_ws :: "char \<Rightarrow> bool" where
  "is_ws c \<longleftrightarrow> c = CHR '' '' \<or> c = CHR 0x09 \<or> c = CHR 0x0A \<or> c = CHR 0x0D"

definition is_digit :: "char \<Rightarrow> bool" where
  "is_digit c \<longleftrightarrow> 48 \<le> (of_char c :: nat) \<and> (of_char c :: nat) \<le> 57"

definition digits_value :: "string \<Rightarrow> nat" where
  "digits_value ds = foldl (\<lambda>n c. 10 * n + ((of_char c :: nat) - 48)) 0 ds"

definition hex_value :: "char \<Rightarrow> nat option" where
  "hex_value c =
     (let n = (of_char c :: nat) in
      if 48 \<le> n \<and> n \<le> 57 then Some (n - 48)
      else if 97 \<le> n \<and> n \<le> 102 then Some (n - 87)
      else if 65 \<le> n \<and> n \<le> 70 then Some (n - 55)
      else None)"

fun hex4 :: "string \<Rightarrow> nat option" where
  "hex4 [a, b, c, d] =
     (case (hex_value a, hex_value b, hex_value c, hex_value d) of
        (Some w, Some x, Some y, Some z) \<Rightarrow> Some (((w * 16 + x) * 16 + y) * 16 + z)
      | _ \<Rightarrow> None)"
| "hex4 s = None"

definition utf8 :: "nat \<Rightarrow> string" where
  "utf8 n =
     (if n < 128 then [char_of n]
      else if n < 2048 then [char_of (192 + n div 64), char_of (128 + n mod 64)]
      else [char_of (224 + n div 4096), char_of (128 + n div 64 mod 64), char_of (128 + n mod 64)])"

definition unescape :: "char \<Rightarrow> char option" where
  "unescape e =
     (if e = CHR 0x22 \<or> e = CHR 0x5C \<or> e = CHR ''/'' then Some e
      else if e = CHR ''b'' then Some (CHR 0x08)
      else if e = CHR ''f'' then Some (CHR 0x0C)
      else if e = CHR ''n'' then Some (CHR 0x0A)
      else if e = CHR ''r'' then Some (CHR 0x0D)
      else if e = CHR ''t'' then Some (CHR 0x09)
      else None)"

text \<open>
  The characters of a string literal after its opening quote: the decoded string and
  what follows the closing quote.
\<close>

function lex_string :: "string \<Rightarrow> string \<Rightarrow> (string \<times> string) option" where
  "lex_string acc [] = None"
| "lex_string acc (c # cs) =
     (if c = CHR 0x22 then Some (rev acc, cs)
      else if c = CHR 0x5C then
        (case cs of
           [] \<Rightarrow> None
         | e # cs' \<Rightarrow>
             if e = CHR ''u'' then
               (case hex4 (take 4 cs') of
                  None \<Rightarrow> None
                | Some n \<Rightarrow> lex_string (rev (utf8 n) @ acc) (drop 4 cs'))
             else
               (case unescape e of
                  None \<Rightarrow> None
                | Some d \<Rightarrow> lex_string (d # acc) cs'))
      else if (of_char c :: nat) < 32 then None
      else lex_string (c # acc) cs)"
  by pat_completeness auto
termination
  by (relation "measure (\<lambda>(acc, s). length s)") auto

text \<open>
  The value of a number lexeme:
  \<^verbatim>\<open>-? (0 | [1-9][0-9]*) (. [0-9]+)? ([eE] [+-]? [0-9]+)?\<close>, or \<open>None\<close>.
\<close>

definition strip_minus :: "string \<Rightarrow> bool \<times> string" where
  "strip_minus s =
     (case s of [] \<Rightarrow> (False, []) | c # r \<Rightarrow> if c = CHR ''-'' then (True, r) else (False, s))"

definition strip_sign :: "string \<Rightarrow> bool \<times> string" where
  "strip_sign s =
     (case s of
        [] \<Rightarrow> (False, [])
      | c # r \<Rightarrow> if c = CHR ''-'' then (True, r) else if c = CHR ''+'' then (False, r) else (False, s))"

definition fraction_part :: "string \<Rightarrow> (string \<times> string) option" where
  "fraction_part s =
     (case s of
        [] \<Rightarrow> Some ([], [])
      | c # r \<Rightarrow>
          if c = CHR ''.'' then
            (if takeWhile is_digit r = [] then None
             else Some (takeWhile is_digit r, dropWhile is_digit r))
          else Some ([], s))"

definition exponent_part :: "string \<Rightarrow> (int \<times> string) option" where
  "exponent_part s =
     (case s of
        [] \<Rightarrow> Some (0, [])
      | c # r \<Rightarrow>
          if c = CHR ''e'' \<or> c = CHR ''E'' then
            (let (neg, r1) = strip_sign r; ds = takeWhile is_digit r1 in
             if ds = [] then None
             else Some ((if neg then - int (digits_value ds) else int (digits_value ds)),
                        dropWhile is_digit r1))
          else Some (0, s))"

definition number_value :: "string \<Rightarrow> rat option" where
  "number_value s =
     (let (neg, s1) = strip_minus s;
          ip = takeWhile is_digit s1
      in if ip = [] \<or> (1 < length ip \<and> hd ip = CHR ''0'') then None
         else
           (case fraction_part (dropWhile is_digit s1) of
              None \<Rightarrow> None
            | Some (fp, s2) \<Rightarrow>
                (case exponent_part s2 of
                   None \<Rightarrow> None
                 | Some (ex, s3) \<Rightarrow>
                     if s3 \<noteq> [] then None
                     else
                       (let m = (of_nat (digits_value ip) :: rat)
                                  + of_nat (digits_value fp) / 10 ^ length fp;
                            scaled = (if 0 \<le> ex then m * 10 ^ nat ex else m / 10 ^ nat (- ex))
                        in Some (if neg then - scaled else scaled)))))"

definition is_number_char :: "char \<Rightarrow> bool" where
  "is_number_char c \<longleftrightarrow>
     is_digit c \<or> c = CHR ''-'' \<or> c = CHR ''+'' \<or> c = CHR ''.'' \<or> c = CHR ''e'' \<or> c = CHR ''E''"

fun starts_with :: "string \<Rightarrow> string \<Rightarrow> bool" where
  "starts_with s [] = True"
| "starts_with [] (p # ps) = False"
| "starts_with (c # cs) (p # ps) = (c = p \<and> starts_with cs ps)"

lemma lex_string_shorter:
  "lex_string acc s = Some (str, rest) \<Longrightarrow> length rest \<le> length s"
proof (induction acc s rule: lex_string.induct)
  case (1 acc)
  then show ?case by simp
next
  case (2 acc c cs)
  show ?case
  proof (cases "c = CHR 0x22")
    case True
    with "2.prems" show ?thesis by simp
  next
    case quote: False
    show ?thesis
    proof (cases "c = CHR 0x5C")
      case True
      show ?thesis
      proof (cases cs)
        case Nil
        with "2.prems" quote True show ?thesis by simp
      next
        case (Cons e cs')
        show ?thesis
        proof (cases "e = CHR ''u''")
          case u: True
          show ?thesis
          proof (cases "hex4 (take 4 cs')")
            case None
            with "2.prems" quote True Cons u show ?thesis by simp
          next
            case (Some n)
            with "2.prems" quote True Cons u
            have "lex_string (rev (utf8 n) @ acc) (drop 4 cs') = Some (str, rest)" by simp
            from "2.IH"(1) [OF quote True Cons u Some this]
            show ?thesis using Cons by simp
          qed
        next
          case nu: False
          show ?thesis
          proof (cases "unescape e")
            case None
            with "2.prems" quote True Cons nu show ?thesis by simp
          next
            case (Some d)
            with "2.prems" quote True Cons nu
            have "lex_string (d # acc) cs' = Some (str, rest)" by simp
            from "2.IH"(2) [OF quote True Cons nu Some this]
            show ?thesis using Cons by simp
          qed
        qed
      qed
    next
      case bs: False
      show ?thesis
      proof (cases "(of_char c :: nat) < 32")
        case True
        with "2.prems" quote bs show ?thesis by simp
      next
        case False
        with "2.prems" quote bs
        have "lex_string (c # acc) cs = Some (str, rest)" by simp
        from "2.IH"(3) [OF quote bs False this]
        show ?thesis by simp
      qed
    qed
  qed
qed

function tokenize :: "string \<Rightarrow> token list option" where
  "tokenize [] = Some []"
| "tokenize (c # cs) =
     (if is_ws c then tokenize cs
      else if c = CHR ''{'' then map_option (Cons TLBrace) (tokenize cs)
      else if c = CHR ''}'' then map_option (Cons TRBrace) (tokenize cs)
      else if c = CHR ''['' then map_option (Cons TLBrack) (tokenize cs)
      else if c = CHR '']'' then map_option (Cons TRBrack) (tokenize cs)
      else if c = CHR '':'' then map_option (Cons TColon) (tokenize cs)
      else if c = CHR '','' then map_option (Cons TComma) (tokenize cs)
      else if c = CHR 0x22 then
        (case lex_string [] cs of
           None \<Rightarrow> None
         | Some (str, rest) \<Rightarrow> map_option (Cons (TString str)) (tokenize rest))
      else if c = CHR ''-'' \<or> is_digit c then
        (case number_value (c # takeWhile is_number_char cs) of
           None \<Rightarrow> None
         | Some n \<Rightarrow> map_option (Cons (TNumber n)) (tokenize (dropWhile is_number_char cs)))
      else if starts_with (c # cs) ''true'' then map_option (Cons TTrue) (tokenize (drop 3 cs))
      else if starts_with (c # cs) ''false'' then map_option (Cons TFalse) (tokenize (drop 4 cs))
      else if starts_with (c # cs) ''null'' then map_option (Cons TNull) (tokenize (drop 3 cs))
      else None)"
  by pat_completeness auto
termination
  by (relation "measure length")
     (auto simp: less_Suc_eq_le length_dropWhile_le dest: lex_string_shorter)

text \<open>
  The automaton: a stack of the arrays and objects that are open (an array with its
  elements so far, last first; an object with its members so far and the key being
  read) and what may come next.
\<close>

datatype frame = InArray "jsval list" | InObject "(string \<times> jsval) list" string

datatype expect = Value | ValueOrClose | Key | KeyOrClose | Colon | CommaOrClose | Finished jsval

fun put_value :: "jsval \<Rightarrow> frame list \<Rightarrow> frame list \<times> expect" where
  "put_value v [] = ([], Finished v)"
| "put_value v (InArray rev_elems # st) = (InArray (v # rev_elems) # st, CommaOrClose)"
| "put_value v (InObject members key # st) =
     (InObject (AList.update key v members) key # st, CommaOrClose)"

fun primitive :: "token \<Rightarrow> jsval option" where
  "primitive (TString s) = Some (JStr s)"
| "primitive (TNumber n) = Some (JNum n)"
| "primitive TTrue = Some (JBool True)"
| "primitive TFalse = Some (JBool False)"
| "primitive TNull = Some JNull"
| "primitive t = None"

fun close_array :: "frame list \<Rightarrow> (frame list \<times> expect) option" where
  "close_array (InArray rev_elems # st) = Some (put_value (JArr (rev rev_elems)) st)"
| "close_array st = None"

fun close_object :: "frame list \<Rightarrow> (frame list \<times> expect) option" where
  "close_object (InObject members key # st) = Some (put_value (JObj members) st)"
| "close_object st = None"

fun read_key :: "string \<Rightarrow> frame list \<Rightarrow> (frame list \<times> expect) option" where
  "read_key k (InObject members key # st) = Some (InObject members k # st, Colon)"
| "read_key k st = None"

fun read_value :: "token \<Rightarrow> frame list \<Rightarrow> (frame list \<times> expect) option" where
  "read_value TLBrack st = Some (InArray [] # st, ValueOrClose)"
| "read_value TLBrace st = Some (InObject [] [] # st, KeyOrClose)"
| "read_value t st = map_option (\<lambda>v. put_value v st) (primitive t)"

fun step :: "frame list \<Rightarrow> expect \<Rightarrow> token \<Rightarrow> (frame list \<times> expect) option" where
  "step st Value t = read_value t st"
| "step st ValueOrClose t = (if t = TRBrack then close_array st else read_value t st)"
| "step st Key t = (case t of TString k \<Rightarrow> read_key k st | _ \<Rightarrow> None)"
| "step st KeyOrClose t =
     (case t of TString k \<Rightarrow> read_key k st | TRBrace \<Rightarrow> close_object st | _ \<Rightarrow> None)"
| "step st Colon t = (if t = TColon then Some (st, Value) else None)"
| "step st CommaOrClose t =
     (case st of
        [] \<Rightarrow> None
      | InArray rev_elems # st' \<Rightarrow>
          if t = TComma then Some (st, Value)
          else if t = TRBrack then close_array st else None
      | InObject members key # st' \<Rightarrow>
          if t = TComma then Some (st, Key)
          else if t = TRBrace then close_object st else None)"
| "step st (Finished v) t = None"

fun run_tokens :: "frame list \<Rightarrow> expect \<Rightarrow> token list \<Rightarrow> jsval option" where
  "run_tokens st e [] = (case e of Finished v \<Rightarrow> Some v | _ \<Rightarrow> None)"
| "run_tokens st e (t # ts) =
     (case step st e t of None \<Rightarrow> None | Some (st', e') \<Rightarrow> run_tokens st' e' ts)"

definition JSON_parse :: "string \<Rightarrow> jsval option" where
  "JSON_parse text =
     (case tokenize text of None \<Rightarrow> None | Some ts \<Rightarrow> run_tokens [] Value ts)"


section \<open>The evaluate route\<close>

text \<open>\<^verbatim>\<open>code.includes("overloaded")\<close>: the pattern occurs somewhere in the string.\<close>

fun str_includes :: "string \<Rightarrow> string \<Rightarrow> bool" where
  "str_includes [] pat = (pat = [])"
| "str_includes (c # cs) pat = (starts_with (c # cs) pat \<or> str_includes cs pat)"

text \<open>What the handler sends: \<^verbatim>\<open>res.status(code).json(body)\<close>; \<^verbatim>\<open>res.json(body)\<close> sends 200.\<close>

record http_response =
  status_code :: nat
  json :: jsval

text \<open>
  A run of the handler: its response, how many times the remote model was called, and
  the retries made.
\<close>

record evaluate_run =
  res :: http_response
  remote_calls :: nat
  retries_made :: "retry_event list"

text \<open>\<^verbatim>\<open>const code = error?.status || error?.error?.code || error?.message;\<close>\<close>

definition error_code :: "jsval \<Rightarrow> jsval" where
  "error_code error =
     js_or (js_or (opt_field error ''status'')
                  (opt_field (opt_field error ''error'') ''code''))
           (opt_field error ''message'')"

text \<open>
  \<^verbatim>\<open>code === 429 || code === "RESOURCE_EXHAUSTED" ||
  (typeof code === "string" && code.includes("overloaded"))\<close>
\<close>

definition overloaded_code :: "jsval \<Rightarrow> bool" where
  "overloaded_code code \<longleftrightarrow>
     code = JNum 429 \<or> code = JStr ''RESOURCE_EXHAUSTED'' \<or>
     (case code of JStr s \<Rightarrow> str_includes s ''overloaded'' | _ \<Rightarrow> False)"

text \<open>The \<^verbatim>\<open>catch (error)\<close> block of the handler.\<close>

definition evaluate_catch :: "jsval \<Rightarrow> http_response" where
  "evaluate_catch error =
     (let code = error_code error in
      if overloaded_code code then
        \<lparr>status_code = 503,
         json = JObj [(''success'', JBool False),
                      (''error'', JStr ''AI model is temporarily overloaded. Please try again in a few seconds.'')]\<rparr>
      else
        \<lparr>status_code = 500,
         json = JObj [(''success'', JBool False),
                      (''error'', js_coalesce (opt_field error ''message'') (JStr ''Server error''))]\<rparr>)"

text \<open>
  \<^verbatim>\<open>const { topic, question, answer } = req.body;\<close> throws a \<^verbatim>\<open>TypeError\<close> when the
  body is \<^verbatim>\<open>undefined\<close> or \<^verbatim>\<open>null\<close>. The messages of the two \<^verbatim>\<open>TypeError\<close>s of the handler
  are those of V8, the engine of Node.js.
\<close>

definition TypeError_destructure :: "jsval \<Rightarrow> jsval" where
  "TypeError_destructure body =
     new_Error (''Cannot destructure property '' @ [CHR 0x27] @ ''topic'' @ [CHR 0x27] @
                '' of '' @ [CHR 0x27] @ ''req.body'' @ [CHR 0x27] @ '' as it is '' @
                (if body = JNull then ''null'' else ''undefined'') @ ''.'')"

text \<open>
  The template literal of the prompt converts each value it interpolates to a string.
  A primitive value converts without fail; how a number is written is the platform's,
  the parameter \<open>shown\<close>. An array converts by joining the conversions of its elements
  with commas, \<^verbatim>\<open>null\<close> and \<^verbatim>\<open>undefined\<close> elements giving the empty string. An object
  converts by its \<^verbatim>\<open>toString\<close> method: the inherited one gives \<^verbatim>\<open>[object Object]\<close>; an own
  property \<^verbatim>\<open>toString\<close>, which in data is never a function, hides it, and as the
  inherited \<^verbatim>\<open>valueOf\<close> returns the object itself the conversion throws a \<^verbatim>\<open>TypeError\<close>.
\<close>

definition TypeError_primitive :: jsval where
  "TypeError_primitive = new_Error ''Cannot convert object to primitive value''"

fun to_string :: "(rat \<Rightarrow> string) \<Rightarrow> jsval \<Rightarrow> jsval + string"
  and join_elements :: "(rat \<Rightarrow> string) \<Rightarrow> jsval list \<Rightarrow> jsval + string"
where
  "to_string shown JUndefined = Inr ''undefined''"
| "to_string shown JNull = Inr ''null''"
| "to_string shown (JBool b) = Inr (if b then ''true'' else ''false'')"
| "to_string shown (JNum n) = Inr (shown n)"
| "to_string shown (JStr s) = Inr s"
| "to_string shown (JArr xs) = join_elements shown xs"
| "to_string shown (JObj fs) =
     (if map_of fs ''toString'' = None then Inr ''[object Object]'' else Inl TypeError_primitive)"
| "join_elements shown [] = Inr []"
| "join_elements shown (x # xs) =
     bind_thrown (if nullish x then Inr [] else to_string shown x)
       (\<lambda>s. if xs = [] then Inr s
            else bind_thrown (join_elements shown xs) (\<lambda>rest. Inr (s @ '','' @ rest)))"

text \<open>The text of the template literal, lines 269 to 287 of the source.\<close>

definition prompt_text :: "string \<Rightarrow> string \<Rightarrow> string \<Rightarrow> string" where
  \<open>prompt_text topic question answer =
     concat
       [[CHR 0x0A],
        ''You are an expert interview evaluator.'', [CHR 0x0A],
        [CHR 0x0A],
        ''Topic: '', topic, [CHR 0x0A],
        ''Question: '', question, [CHR 0x0A],
        ''Candidate Answer: '', answer, [CHR 0x0A],
        [CHR 0x0A],
        ''Give JSON output with:'', [CHR 0x0A],
        ''{'', [CHR 0x0A],
        ''  "score": number (0-10),'', [CHR 0x0A],
        ''  "feedback": "string",'', [CHR 0x0A],
        ''  "mistakes": ["point1", "point2"],'', [CHR 0x0A],
        ''  "missing_points": ["point1", "point2"],'', [CHR 0x0A],
        ''  "perfect_answer": "string",'', [CHR 0x0A],
        ''  "next_question": "string"'', [CHR 0x0A],
        ''}'', [CHR 0x0A],
        [CHR 0x0A],
        ''Only respond in valid JSON.'', [CHR 0x0A]]\<close>

text \<open>The conversions happen in the order of the text: topic, question, answer.\<close>

definition build_prompt :: "(rat \<Rightarrow> string) \<Rightarrow> jsval \<Rightarrow> jsval \<Rightarrow> jsval \<Rightarrow> jsval + string" where
  "build_prompt shown topic question answer =
     bind_thrown (to_string shown topic) (\<lambda>t.
     bind_thrown (to_string shown question) (\<lambda>q.
     bind_thrown (to_string shown answer) (\<lambda>a.
       Inr (prompt_text t q a))))"

text \<open>The bodies of the responses of the \<^verbatim>\<open>try\<close> block.\<close>

definition missing_fields_body :: jsval where
  "missing_fields_body =
     JObj [(''success'', JBool False),
           (''error'', JStr ''Missing required fields: topic, question, answer'')]"

text \<open>\<^verbatim>\<open>debug: { topKeys: Object.keys(response || {}).slice(0, 20) }\<close>\<close>

definition no_text_body :: "(jsval \<Rightarrow> string list) \<Rightarrow> jsval \<Rightarrow> jsval" where
  "no_text_body keys reply =
     JObj [(''success'', JBool False),
           (''error'', JStr ''Could not extract text from model response''),
           (''debug'', JObj [(''topKeys'', JArr (map JStr (take 20 (keys (js_or reply (JObj []))))))])]"

definition evaluation_body :: "jsval \<Rightarrow> jsval" where
  "evaluation_body parsed =
     JObj [(''success'', JBool True), (''evaluation'', get_field parsed ''data'')]"

text \<open>\<^verbatim>\<open>{ success: false, error: parsed.error, raw: parsed.raw ?? text }\<close>\<close>

definition not_parsed_body :: "jsval \<Rightarrow> jsval \<Rightarrow> jsval" where
  "not_parsed_body parsed text =
     JObj [(''success'', JBool False),
           (''error'', get_field parsed ''error''),
           (''raw'', js_coalesce (get_field parsed ''raw'') text)]"

text \<open>
  The handler of \<^verbatim>\<open>POST /evaluate\<close>. \<open>body\<close> is \<^verbatim>\<open>req.body\<close>. The replies of the remote
  model are not the handler's: \<open>generateContent prompt i\<close> is the outcome of the call
  number \<open>i\<close> of \<^verbatim>\<open>ai.models.generateContent\<close> (for the model \<^verbatim>\<open>gemini-2.0-flash\<close>) with
  this prompt, and every property below holds for all such behaviours. \<^verbatim>\<open>JSON.parse\<close>,
  \<^verbatim>\<open>Object.keys\<close>, the writing of numbers and \<^verbatim>\<open>Math.random\<close> are the platform's: the
  parameters \<open>parse\<close>, \<open>keys\<close>, \<open>shown\<close> and \<open>random\<close>.
\<close>

definition evaluate ::
  "(string \<Rightarrow> jsval option) \<Rightarrow> (jsval \<Rightarrow> string list) \<Rightarrow> (rat \<Rightarrow> string) \<Rightarrow>
   (string \<Rightarrow> nat \<Rightarrow> outcome) \<Rightarrow> (nat \<Rightarrow> rat) \<Rightarrow> jsval \<Rightarrow> evaluate_run"
where
  "evaluate parse keys shown generateContent random body =
     (if nullish body then
        \<lparr>res = evaluate_catch (TypeError_destructure body), remote_calls = 0, retries_made = []\<rparr>
      else
        (let topic = get_field body ''topic'';
             question = get_field body ''question'';
             answer = get_field body ''answer''
         in
           if \<not> truthy topic \<or> \<not> truthy question \<or> answer = JUndefined then
             \<lparr>res = \<lparr>status_code = 400, json = missing_fields_body\<rparr>,
              remote_calls = 0, retries_made = []\<rparr>
           else
             (case build_prompt shown topic question answer of
                Inl error \<Rightarrow>
                  \<lparr>res = evaluate_catch error, remote_calls = 0, retries_made = []\<rparr>
              | Inr prompt \<Rightarrow>
                  (let run = withRetries (generateContent prompt) random default_options in
                   case result run of
                     Inl error \<Rightarrow>
                       \<lparr>res = evaluate_catch error,
                        remote_calls = calls run, retries_made = events run\<rparr>
                   | Inr reply \<Rightarrow>
                       (let text = extractTextFromResponse reply in
                        if \<not> truthy text then
                          \<lparr>res = \<lparr>status_code = 502, json = no_text_body keys reply\<rparr>,
                           remote_calls = calls run, retries_made = events run\<rparr>
                        else
                          (let parsed = safeParseJSON parse text in
                           if truthy (get_field parsed ''ok'') then
                             \<lparr>res = \<lparr>status_code = 200, json = evaluation_body parsed\<rparr>,
                              remote_calls = calls run, retries_made = events run\<rparr>
                           else
                             \<lparr>res = \<lparr>status_code = 200, json = not_parsed_body parsed text\<rparr>,
                              remote_calls = calls run, retries_made = events run\<rparr>))))))"


section \<open>Properties of the rounding to doubles\<close>

lemma quantum_from_bounds:
  "- 1074 \<le> quantum_from k x \<and> quantum_from k x \<le> int k - 1074"
  by (induction k) auto

lemma quantum_from_lower:
  "- 1074 < quantum_from k x \<Longrightarrow> 2 powi (quantum_from k x + 52) \<le> x"
  by (induction k) (auto split: if_splits)

lemma quantum_from_upper:
  "x < 2 powi (int k - 1021) \<Longrightarrow> x < 2 powi (quantum_from k x + 53)"
proof (induction k)
  case 0
  then show ?case by simp
next
  case (Suc k)
  show ?case
  proof (cases "2 powi (int (Suc k) - 1022) \<le> x")
    case True
    have "int (Suc k) - 1074 + 53 = int (Suc k) - 1021" by simp
    with True Suc.prems show ?thesis by simp
  next
    case False
    have "int (Suc k) - 1022 = int k - 1021" by simp
    with False have "x < 2 powi (int k - 1021)" by simp
    with Suc.IH False show ?thesis by simp
  qed
qed

lemma pow2_exp_less:
  fixes x :: rat
  assumes "2 powi a \<le> x" and "x < 2 powi b"
  shows "a < b"
proof (rule ccontr)
  assume "\<not> a < b"
  then have "b \<le> a" by simp
  then have "(2::rat) powi b \<le> 2 powi a" by (intro power_int_increasing) simp_all
  with assms show False by simp
qed

lemma quantum_range: "- 1074 \<le> quantum x" "quantum x \<le> 971"
  using quantum_from_bounds [of 2045 "\<bar>x\<bar>"] by (simp_all add: quantum_def)

lemma quantum_lower: "- 1074 < quantum x \<Longrightarrow> 2 powi (quantum x + 52) \<le> \<bar>x\<bar>"
  using quantum_from_lower [of 2045 "\<bar>x\<bar>"] by (simp add: quantum_def)

lemma quantum_upper: "\<bar>x\<bar> < 2 powi 1024 \<Longrightarrow> \<bar>x\<bar> < 2 powi (quantum x + 53)"
  using quantum_from_upper [of "\<bar>x\<bar>" 2045] by (simp add: quantum_def)

lemma quantum_eq:
  assumes "- 1074 \<le> q" and "q \<le> 971"
    and "q = - 1074 \<or> 2 powi (q + 52) \<le> \<bar>x\<bar>" and "\<bar>x\<bar> < 2 powi (q + 53)"
  shows "quantum x = q"
proof -
  have "(2::rat) powi (q + 53) \<le> 2 powi 1024"
    using assms(2) by (intro power_int_increasing) simp_all
  with assms(4) have big: "\<bar>x\<bar> < 2 powi 1024" by simp
  have le: "quantum x \<le> q"
  proof (cases "- 1074 < quantum x")
    case True
    from pow2_exp_less [OF quantum_lower [OF True] assms(4)] show ?thesis by simp
  next
    case False
    with assms(1) show ?thesis by simp
  qed
  have ge: "q \<le> quantum x"
  proof (cases "q = - 1074")
    case True
    then show ?thesis using quantum_range(1) [of x] by simp
  next
    case False
    with assms(3) have "2 powi (q + 52) \<le> \<bar>x\<bar>" by simp
    from pow2_exp_less [OF this quantum_upper [OF big]] show ?thesis by simp
  qed
  from le ge show ?thesis by simp
qed

lemma round_half_even_le: "y \<le> of_int N \<Longrightarrow> round_half_even y \<le> N"
proof -
  assume y: "y \<le> of_int N"
  then have n: "\<lfloor>y\<rfloor> \<le> N" by (simp add: floor_le_iff)
  show ?thesis
  proof (cases "\<lfloor>y\<rfloor> = N")
    case True
    then have "of_int N \<le> y" using of_int_floor_le [of y] by simp
    with y have "y = of_int N" by simp
    then show ?thesis by (simp add: round_half_even_def)
  next
    case False
    with n have "\<lfloor>y\<rfloor> + 1 \<le> N" by simp
    then show ?thesis by (simp add: round_half_even_def Let_def)
  qed
qed

lemma round_half_even_below: "y < of_int N - 1 / 2 \<Longrightarrow> round_half_even y \<le> N - 1"
proof -
  assume y: "y < of_int N - 1 / 2"
  then have "y < of_int N" by simp
  then have n: "\<lfloor>y\<rfloor> \<le> N - 1" by (simp add: floor_less_iff)
  show ?thesis
  proof (cases "\<lfloor>y\<rfloor> = N - 1")
    case True
    then have "y - of_int \<lfloor>y\<rfloor> < 1 / 2" using y by simp
    then show ?thesis using True by (simp add: round_half_even_def Let_def)
  next
    case False
    with n have "\<lfloor>y\<rfloor> + 1 \<le> N - 1" by simp
    then show ?thesis by (simp add: round_half_even_def Let_def)
  qed
qed

lemma round_half_even_nonneg: "0 \<le> y \<Longrightarrow> 0 \<le> round_half_even y"
proof -
  assume "0 \<le> y"
  then have "0 \<le> \<lfloor>y\<rfloor>" by simp
  then show ?thesis by (simp add: round_half_even_def Let_def)
qed

lemma double_round_nonneg: "0 \<le> x \<Longrightarrow> 0 \<le> double_round x"
proof -
  assume "0 \<le> x"
  then have "0 \<le> x / 2 powi quantum x" by simp
  then have "0 \<le> round_half_even (x / 2 powi quantum x)" by (rule round_half_even_nonneg)
  then show ?thesis by (simp add: double_round_def)
qed


lemma pow2_pos: "0 < (2::rat) powi e"
  by (simp add: zero_less_power_int)

lemma doubles_below_one:
  assumes "is_double r" and "0 \<le> r" and "r < 1"
  shows "r \<le> 1 - 1 / 2 ^ 53"
proof -
  define q where "q = quantum r"
  define m where "m = round_half_even (r / 2 powi q)"
  have r: "r = of_int m * 2 powi q"
    using assms(1) by (simp add: is_double_def double_round_def q_def m_def)
  have abs: "\<bar>r\<bar> = r" using assms(2) by simp
  have big: "\<bar>r\<bar> < 2 powi 1024" using assms(1) by (simp add: is_double_def)
  have up: "r < 2 powi (q + 53)"
    using quantum_upper [OF big] abs by (simp add: q_def)
  have q: "q \<le> - 53"
  proof (cases "- 1074 < q")
    case True
    then have "2 powi (q + 52) \<le> r"
      using quantum_lower [of r] abs by (simp add: q_def)
    moreover have "r < 2 powi 0" using assms(3) by simp
    ultimately have "q + 52 < 0" by (rule pow2_exp_less)
    then show ?thesis by simp
  next
    case False
    then show ?thesis by simp
  qed
  have "(2::rat) powi (q + 53) = 2 ^ 53 * 2 powi q"
    by (simp add: power_int_add)
  with up r have "of_int m * 2 powi q < (2::rat) ^ 53 * 2 powi q" by simp
  then have "(of_int m :: rat) < 2 ^ 53"
    using pow2_pos [of q] by (simp add: mult_less_cancel_right)
  then have "(of_int m :: rat) < of_int (2 ^ 53)" by simp
  then have "m < 2 ^ 53" by (simp only: of_int_less_iff)
  then have m: "m \<le> 2 ^ 53 - 1" by simp
  have m0: "0 \<le> m"
    using assms(2) pow2_pos [of q] round_half_even_nonneg [of "r / 2 powi q"]
    by (simp add: m_def)
  have "(2::rat) powi q \<le> 2 powi (- 53)"
    using q by (intro power_int_increasing) simp_all
  then have "of_int m * 2 powi q \<le> (of_int m :: rat) * 2 powi (- 53)"
    using m0 by (intro mult_left_mono) simp_all
  also have "\<dots> \<le> of_int (2 ^ 53 - 1) * 2 powi (- 53)"
  proof (rule mult_right_mono)
    show "(of_int m :: rat) \<le> of_int (2 ^ 53 - 1)" using m by (simp only: of_int_le_iff)
    show "(0::rat) \<le> 2 powi (- 53)" using pow2_pos [of "- 53"] by simp
  qed
  also have "\<dots> = 1 - 1 / 2 ^ 53"
    by (simp add: power_int_minus field_simps)
  finally show ?thesis using r by simp
qed

lemma double_round_below_200:
  assumes "0 \<le> x" and "x \<le> 200 - 200 / 2 ^ 53"
  shows "double_round x < 200"
proof -
  define q where "q = quantum x"
  define m where "m = round_half_even (x / 2 powi q)"
  have dr: "double_round x = of_int m * 2 powi q"
    by (simp add: double_round_def q_def m_def)
  have abs: "\<bar>x\<bar> = x" using assms(1) by simp
  have x200: "x < 200" using assms(2) by simp
  then have "x < 2 powi 1024" by simp
  then have up: "x < 2 powi (q + 53)"
    using quantum_upper [of x] abs by (simp add: q_def)
  show ?thesis
  proof (cases "x < 128")
    case True
    have q: "q + 53 \<le> 7"
    proof (cases "- 1074 < q")
      case True
      then have "2 powi (q + 52) \<le> x"
        using quantum_lower [of x] abs by (simp add: q_def)
      moreover have "x < 2 powi 7" using \<open>x < 128\<close> by simp
      ultimately have "q + 52 < 7" by (rule pow2_exp_less)
      then show ?thesis by simp
    next
      case False
      then show ?thesis by simp
    qed
    have "(2::rat) powi (q + 53) = 2 ^ 53 * 2 powi q"
      by (simp add: power_int_add)
    with up have "x / 2 powi q < 2 ^ 53"
      using pow2_pos [of q] by (simp add: pos_divide_less_eq)
    then have "x / 2 powi q \<le> of_int (2 ^ 53)" by simp
    then have "m \<le> 2 ^ 53" unfolding m_def by (rule round_half_even_le)
    then have "(of_int m :: rat) \<le> of_int (2 ^ 53)" by (simp only: of_int_le_iff)
    then have "of_int m * 2 powi q \<le> (2::rat) ^ 53 * 2 powi q"
      using pow2_pos [of q] by (intro mult_right_mono) simp_all
    also have "\<dots> = 2 powi (q + 53)" by (simp add: power_int_add)
    also have "\<dots> \<le> 2 powi 7" using q by (intro power_int_increasing) simp_all
    finally show ?thesis using dr by simp
  next
    case False
    then have "2 powi (7::int) \<le> \<bar>x\<bar>" using abs by simp
    moreover have "\<bar>x\<bar> < 2 powi (8::int)" using x200 abs by simp
    ultimately have "quantum x = - 45"
      by (intro quantum_eq) simp_all
    then have q: "q = - 45" by (simp add: q_def)
    have y: "x / 2 powi q = x * 2 ^ 45"
      by (simp add: q power_int_minus field_simps)
    have "x * 2 ^ 45 \<le> (200 - 200 / 2 ^ 53) * 2 ^ 45"
      using assms(2) by (intro mult_right_mono) simp_all
    also have "\<dots> < of_int (200 * 2 ^ 45) - 1 / 2" by simp
    finally have "m \<le> 200 * 2 ^ 45 - 1"
      unfolding m_def y by (rule round_half_even_below)
    then have "(of_int m :: rat) \<le> of_int (200 * 2 ^ 45 - 1)" by (simp only: of_int_le_iff)
    then have "of_int m * 2 powi q \<le> (of_int (200 * 2 ^ 45 - 1) :: rat) * 2 powi q"
      using pow2_pos [of q] by (intro mult_right_mono) simp_all
    also have "\<dots> < 200" by (simp add: q power_int_minus)
    finally show ?thesis using dr by simp
  qed
qed

lemma double_round_at:
  assumes "- 1074 \<le> q" and "q \<le> 971"
    and "q = - 1074 \<or> 2 powi (q + 52) \<le> \<bar>x\<bar>" and "\<bar>x\<bar> < 2 powi (q + 53)"
  shows "double_round x = of_int (round_half_even (x / 2 powi q)) * 2 powi q"
  using quantum_eq [OF assms] by (simp add: double_round_def)

lemma is_double_seven_tenths: "is_double (3152519739159347 / 4503599627370496)"
proof -
  have "double_round (3152519739159347 / 4503599627370496) = 3152519739159347 / 4503599627370496"
    by (subst double_round_at [of "- 53"]) (simp_all add: round_half_even_def Let_def power_int_minus)
  then show ?thesis by (simp add: is_double_def)
qed

lemma jitter_seven_tenths:
  "\<lfloor>double_round (3152519739159347 / 4503599627370496 * 200)\<rfloor> = 140"
proof -
  have a: "double_round (3152519739159347 / 4503599627370496 * 200) =
      of_int (round_half_even (3152519739159347 / 4503599627370496 * 200 / 2 powi (- 45))) *
        2 powi (- 45)"
    by (rule double_round_at) (simp_all add: power_int_minus)
  have b: "\<lfloor>of_int (round_half_even (3152519739159347 / 4503599627370496 * 200 / 2 powi (- 45))) *
        (2::rat) powi (- 45)\<rfloor> = 140"
    by code_simp
  show ?thesis unfolding a by (rule b)
qed

lemma exact_product_seven_tenths:
  "\<lfloor>(3152519739159347 / 4503599627370496 * 200 :: rat)\<rfloor> = 139"
  by code_simp


section \<open>Properties of the retry wrapper\<close>

declare withRetries_loop.simps [simp del]

lemma retryable_failure_Rejects:
  "retryable_failure (fn i) \<Longrightarrow> \<exists>err. fn i = Rejects err \<and> retryable_status (error_status err)"
  by (cases "fn i") (simp_all add: retryable_failure_def)

lemma floor_scaled: "\<lfloor>(of_int m :: rat) * 2 ^ k\<rfloor> = m * 2 ^ k"
proof -
  have "(of_int m :: rat) * 2 ^ k = of_int (m * 2 ^ k)" by simp
  then show ?thesis by (simp only: floor_of_int)
qed

lemma loop_done:
  "\<not> attempt < retries opts \<Longrightarrow>
   withRetries_loop fn random opts attempt ncalls evs =
     \<lparr>result = Inl exhausted_error, calls = ncalls, events = evs\<rparr>"
  by (subst withRetries_loop.simps) simp

lemma loop_resolves:
  "attempt < retries opts \<Longrightarrow> fn ncalls = Resolves v \<Longrightarrow>
   withRetries_loop fn random opts attempt ncalls evs =
     \<lparr>result = Inr v, calls = Suc ncalls, events = evs\<rparr>"
  by (subst withRetries_loop.simps) simp

lemma loop_fatal:
  "attempt < retries opts \<Longrightarrow> fn ncalls = Rejects err \<Longrightarrow> \<not> retryable_status (error_status err) \<Longrightarrow>
   withRetries_loop fn random opts attempt ncalls evs =
     \<lparr>result = Inl err, calls = Suc ncalls, events = evs\<rparr>"
  by (subst withRetries_loop.simps) simp

lemma loop_retry:
  "attempt < retries opts \<Longrightarrow> retryable_failure (fn ncalls) \<Longrightarrow>
   withRetries_loop fn random opts attempt ncalls evs =
     withRetries_loop fn random opts (Suc attempt) (Suc ncalls)
       (evs @ [next_event random opts attempt (length evs)])"
  by (subst withRetries_loop.simps)
     (auto simp: retryable_failure_def next_event_def floor_scaled Let_def split: outcome.splits)

lemma loop_exhausted:
  "(\<And>i. ncalls \<le> i \<Longrightarrow> i < ncalls + k \<Longrightarrow> retryable_failure (fn i)) \<Longrightarrow>
   attempt + k = retries opts \<Longrightarrow>
   result (withRetries_loop fn random opts attempt ncalls evs) = Inl exhausted_error \<and>
   calls (withRetries_loop fn random opts attempt ncalls evs) = ncalls + k"
proof (induction k arbitrary: attempt ncalls evs)
  case 0
  then show ?case by (simp add: loop_done)
next
  case (Suc k)
  have lt: "attempt < retries opts" using Suc.prems(2) by simp
  have now: "retryable_failure (fn ncalls)" using Suc.prems(1) [of ncalls] by simp
  have later: "\<And>i. Suc ncalls \<le> i \<Longrightarrow> i < Suc ncalls + k \<Longrightarrow> retryable_failure (fn i)"
    using Suc.prems(1) by simp
  have "Suc attempt + k = retries opts" using Suc.prems(2) by simp
  from Suc.IH [OF later this] show ?case
    by (simp add: loop_retry [where fn = fn and ncalls = ncalls, OF lt now])
qed

lemma loop_recovers:
  "(\<And>i. ncalls \<le> i \<Longrightarrow> i < ncalls + k \<Longrightarrow> retryable_failure (fn i)) \<Longrightarrow>
   fn (ncalls + k) = Resolves v \<Longrightarrow>
   attempt + k < retries opts \<Longrightarrow>
   result (withRetries_loop fn random opts attempt ncalls evs) = Inr v \<and>
   calls (withRetries_loop fn random opts attempt ncalls evs) = Suc (ncalls + k)"
proof (induction k arbitrary: attempt ncalls evs)
  case 0
  then show ?case by (simp add: loop_resolves)
next
  case (Suc k)
  have lt: "attempt < retries opts" using Suc.prems(3) by simp
  have now: "retryable_failure (fn ncalls)" using Suc.prems(1) [of ncalls] by simp
  have later: "\<And>i. Suc ncalls \<le> i \<Longrightarrow> i < Suc ncalls + k \<Longrightarrow> retryable_failure (fn i)"
    using Suc.prems(1) by simp
  have res: "fn (Suc ncalls + k) = Resolves v" using Suc.prems(2) by simp
  have "Suc attempt + k < retries opts" using Suc.prems(3) by simp
  from Suc.IH [OF later res this] show ?case
    by (simp add: loop_retry [where fn = fn and ncalls = ncalls, OF lt now])
qed

text \<open>The retries made so far are never changed, only extended.\<close>

lemma loop_events_prefix:
  "\<exists>more. events (withRetries_loop fn random opts attempt ncalls evs) = evs @ more"
proof (induction "retries opts - attempt" arbitrary: attempt ncalls evs)
  case 0
  then show ?case by (simp add: loop_done)
next
  case (Suc d)
  then have lt: "attempt < retries opts" by simp
  show ?case
  proof (cases "fn ncalls")
    case (Resolves v)
    then show ?thesis using lt by (simp add: loop_resolves)
  next
    case (Rejects err)
    show ?thesis
    proof (cases "retryable_status (error_status err)")
      case False
      then show ?thesis using Rejects lt by (simp add: loop_fatal)
    next
      case True
      then have now: "retryable_failure (fn ncalls)"
        using Rejects by (simp add: retryable_failure_def)
      have "d = retries opts - Suc attempt" using Suc.hyps(2) by simp
      from Suc.hyps(1) [OF this] show ?thesis
        by (simp add: loop_retry [where fn = fn and ncalls = ncalls, OF lt now]) (metis append.assoc)
    qed
  qed
qed

lemma loop_events:
  "(\<And>i. ncalls \<le> i \<Longrightarrow> i < ncalls + k \<Longrightarrow> retryable_failure (fn i)) \<Longrightarrow>
   attempt + k \<le> retries opts \<Longrightarrow>
   \<exists>more. events (withRetries_loop fn random opts attempt ncalls evs) =
     evs @ map (\<lambda>j. next_event random opts (attempt + j) (length evs + j)) [0..<k] @ more"
proof (induction k arbitrary: attempt ncalls evs)
  case 0
  then show ?case using loop_events_prefix by simp
next
  case (Suc k)
  have lt: "attempt < retries opts" using Suc.prems(2) by simp
  have now: "retryable_failure (fn ncalls)" using Suc.prems(1) [of ncalls] by simp
  have later: "\<And>i. Suc ncalls \<le> i \<Longrightarrow> i < Suc ncalls + k \<Longrightarrow> retryable_failure (fn i)"
    using Suc.prems(1) by simp
  have "Suc attempt + k \<le> retries opts" using Suc.prems(2) by simp
  from Suc.IH [OF later this, where evs = "evs @ [next_event random opts attempt (length evs)]"]
  obtain more where
    "events (withRetries_loop fn random opts (Suc attempt) (Suc ncalls)
        (evs @ [next_event random opts attempt (length evs)])) =
      (evs @ [next_event random opts attempt (length evs)]) @
        map (\<lambda>j. next_event random opts (Suc attempt + j) (length (evs @ [next_event random opts attempt (length evs)]) + j)) [0..<k] @ more"
    by blast
  moreover have "map (\<lambda>j. next_event random opts (attempt + j) (length evs + j)) [0..<Suc k] =
    next_event random opts attempt (length evs) #
      map (\<lambda>j. next_event random opts (Suc attempt + j) (Suc (length evs) + j)) [0..<k]"
    by (simp add: upt_conv_Cons map_Suc_upt [symmetric] del: upt_Suc)
  ultimately show ?case
    by (simp add: loop_retry [where fn = fn and ncalls = ncalls, OF lt now] del: upt_Suc)
qed


lemma withRetries_events:
  assumes "\<And>i. i < n \<Longrightarrow> retryable_failure (fn i)" and "n \<le> retries opts"
  shows "\<exists>more. events (withRetries fn random opts) =
           map (\<lambda>j. next_event random opts j j) [0..<n] @ more"
  using loop_events [where ncalls = 0 and k = n and fn = fn and attempt = 0 and opts = opts
      and evs = "[]" and random = random] assms
  by (simp add: withRetries_def)

lemma withRetries_no_budget: "retries opts = 0 \<Longrightarrow> calls (withRetries fn random opts) = 0"
  by (simp add: withRetries_def loop_done)

lemma jitter_range:
  assumes "is_double r" and "0 \<le> r" and "r < 1"
  shows "0 \<le> \<lfloor>double_round (r * 200)\<rfloor> \<and> \<lfloor>double_round (r * 200)\<rfloor> < 200"
proof -
  have "r \<le> 1 - 1 / 2 ^ 53" using assms by (rule doubles_below_one)
  then have "r * 200 \<le> (1 - 1 / 2 ^ 53) * 200" by (intro mult_right_mono) simp_all
  then have le: "r * 200 \<le> 200 - 200 / 2 ^ 53" by simp
  have nn: "0 \<le> r * 200" using assms(2) by simp
  have "double_round (r * 200) < 200" using nn le by (rule double_round_below_200)
  moreover have "0 \<le> double_round (r * 200)" using nn by (rule double_round_nonneg)
  ultimately show ?thesis by (simp add: floor_less_iff)
qed

text \<open>
  Claim C1. When every invocation of the operation, up to the retry budget, fails with
  an error whose status is retryable (429, \<^verbatim>\<open>"RESOURCE_EXHAUSTED"\<close> or
  \<^verbatim>\<open>"TOO_MANY_REQUESTS"\<close>), \<^verbatim>\<open>withRetries\<close> invokes the operation exactly \<^verbatim>\<open>retries\<close> times
  and then throws the terminal error, whose message is
  \<^verbatim>\<open>Model service overloaded. Retries exhausted.\<close>
\<close>

theorem withRetries_exhausts_budget:
  assumes "\<forall>i<retries opts. retryable_failure (fn i)"
  shows "result (withRetries fn random opts) =
           Inl (new_Error ''Model service overloaded. Retries exhausted.'') \<and>
         calls (withRetries fn random opts) = retries opts"
  using loop_exhausted [where ncalls = 0 and k = "retries opts" and fn = fn and attempt = 0
      and opts = opts and evs = "[]" and random = random] assms
  by (simp add: withRetries_def exhausted_error_def)

theorem withRetries_exhausts_budget_witness:
  "retryable_failure (Rejects (JObj [(''status'', JNum 429)])) \<and>
   result (withRetries (\<lambda>i. Rejects (JObj [(''status'', JNum 429)])) (\<lambda>i. 1 / 2) default_options) =
     Inl (new_Error ''Model service overloaded. Retries exhausted.'') \<and>
   calls (withRetries (\<lambda>i. Rejects (JObj [(''status'', JNum 429)])) (\<lambda>i. 1 / 2) default_options) = 4"
proof -
  have r: "retryable_failure (Rejects (JObj [(''status'', JNum 429)]))"
    by (simp add: retryable_failure_def retryable_status_def error_status_def js_or_def opt_field_def)
  show ?thesis
    using r withRetries_exhausts_budget
      [of default_options "\<lambda>i. Rejects (JObj [(''status'', JNum 429)])" "\<lambda>i. 1 / 2"]
    by (simp add: default_options_def)
qed

text \<open>
  Claim C2. In a run that invokes the operation (a run with an empty budget never does,
  so the operation has no failure there), if the first invocation fails with an error
  whose status is not retryable, \<^verbatim>\<open>withRetries\<close> throws that same error after exactly one
  invocation, having set no timer and made no further attempt.
\<close>

theorem withRetries_fatal_propagates:
  assumes "0 < calls (withRetries fn random opts)"
    and "fn 0 = Rejects err" and "\<not> retryable_status (error_status err)"
  shows "withRetries fn random opts = \<lparr>result = Inl err, calls = 1, events = []\<rparr>"
proof -
  have "0 < retries opts"
    using assms(1) withRetries_no_budget [of opts fn random] by (cases "retries opts") simp_all
  then show ?thesis
    using assms(2,3) by (simp add: withRetries_def loop_fatal)
qed

theorem withRetries_fatal_propagates_witness:
  "\<not> retryable_status (error_status (JObj [(''status'', JNum 500)])) \<and>
   withRetries (\<lambda>i. Rejects (JObj [(''status'', JNum 500)])) (\<lambda>i. 1 / 2) default_options =
     \<lparr>result = Inl (JObj [(''status'', JNum 500)]), calls = 1, events = []\<rparr>"
proof -
  let ?fn = "\<lambda>i::nat. Rejects (JObj [(''status'', JNum 500)])"
  have n: "\<not> retryable_status (error_status (JObj [(''status'', JNum 500)]))"
    by (simp add: retryable_status_def error_status_def js_or_def opt_field_def)
  have c: "0 < calls (withRetries ?fn (\<lambda>i. 1 / 2) default_options)"
    using n by (simp add: withRetries_def default_options_def loop_fatal)
  show ?thesis
    using n withRetries_fatal_propagates [OF c refl n] by simp
qed

text \<open>
  Claim C3. When the first \<open>k\<close> invocations fail with a retryable error, \<open>k\<close> below the
  retry budget, and the next one succeeds, \<^verbatim>\<open>withRetries\<close> returns the value of that first
  successful invocation, after \<open>k + 1\<close> invocations.
\<close>

theorem withRetries_recovers:
  assumes "k < retries opts" and "\<forall>i<k. retryable_failure (fn i)"
    and "fn k = Resolves v"
  shows "result (withRetries fn random opts) = Inr v \<and>
         calls (withRetries fn random opts) = Suc k"
  using loop_recovers [where ncalls = 0 and k = k and fn = fn and attempt = 0
      and opts = opts and evs = "[]" and random = random and v = v] assms
  by (simp add: withRetries_def)

theorem withRetries_recovers_witness:
  "result (withRetries (\<lambda>i. if i < 3 then Rejects (JObj [(''code'', JStr ''RESOURCE_EXHAUSTED'')])
                            else Resolves (JStr ''done'')) (\<lambda>i. 1 / 2) default_options) =
     Inr (JStr ''done'') \<and>
   calls (withRetries (\<lambda>i. if i < 3 then Rejects (JObj [(''code'', JStr ''RESOURCE_EXHAUSTED'')])
                            else Resolves (JStr ''done'')) (\<lambda>i. 1 / 2) default_options) = 4"
proof -
  let ?fn = "\<lambda>i::nat. if i < 3 then Rejects (JObj [(''code'', JStr ''RESOURCE_EXHAUSTED'')])
                            else Resolves (JStr ''done'')"
  have r: "\<forall>i<3. retryable_failure (?fn i)"
    by (simp add: retryable_failure_def retryable_status_def error_status_def js_or_def opt_field_def)
  have k: "3 < retries default_options" by (simp add: default_options_def)
  show ?thesis
    using withRetries_recovers [of 3 default_options ?fn "JStr ''done''" "\<lambda>i. 1 / 2", OF k r]
    by simp
qed

text \<open>
  Claim C4. After the \<open>n\<close>-th consecutive retryable failure (\<open>n\<close> from 1, within the
  budget) the counter \<^verbatim>\<open>attempt\<close>, which starts at 0, has the value \<open>n\<close>, and the timer is
  set to \<open>min maxDelay (minDelay * 2 ^ (n - 1))\<close> milliseconds plus a jitter, the floor of
  the double product of 200 and what \<^verbatim>\<open>Math.random()\<close> returned (a double from 0 up to,
  not including, 1), which is a whole number from 0 up to, not including, 200. The
  defaults are \<^verbatim>\<open>retries = 4\<close>, \<^verbatim>\<open>minDelay = 500\<close> and \<^verbatim>\<open>maxDelay = 6000\<close>.
\<close>

theorem withRetries_backoff:
  assumes "1 \<le> n" and "n \<le> retries opts"
    and "\<forall>i<n. retryable_failure (fn i)"
    and "is_double (random (n - 1))" and "0 \<le> random (n - 1)" and "random (n - 1) < 1"
  shows "n \<le> length (events (withRetries fn random opts)) \<and>
         ev_attempt (events (withRetries fn random opts) ! (n - 1)) = n \<and>
         ev_delay (events (withRetries fn random opts) ! (n - 1)) =
           min (maxDelay opts) (minDelay opts * 2 ^ (n - 1)) \<and>
         ev_jitter (events (withRetries fn random opts) ! (n - 1)) =
           \<lfloor>double_round (random (n - 1) * 200)\<rfloor> \<and>
         0 \<le> ev_jitter (events (withRetries fn random opts) ! (n - 1)) \<and>
         ev_jitter (events (withRetries fn random opts) ! (n - 1)) < 200 \<and>
         ev_timeout (events (withRetries fn random opts) ! (n - 1)) =
           min (maxDelay opts) (minDelay opts * 2 ^ (n - 1)) +
           ev_jitter (events (withRetries fn random opts) ! (n - 1)) \<and>
         retries default_options = 4 \<and> minDelay default_options = 500 \<and>
         maxDelay default_options = 6000"
proof -
  from withRetries_events [of n fn opts random] assms(2,3)
  obtain more where ev: "events (withRetries fn random opts) =
      map (\<lambda>j. next_event random opts j j) [0..<n] @ more"
    by blast
  have len: "n \<le> length (events (withRetries fn random opts))"
    by (simp add: ev)
  have "n - 1 < n" using assms(1) by simp
  then have nth: "events (withRetries fn random opts) ! (n - 1) = next_event random opts (n - 1) (n - 1)"
    by (simp add: ev nth_append)
  have suc: "Suc (n - 1) = n" using assms(1) by simp
  show ?thesis
    unfolding nth
    using len jitter_range [OF assms(4,5,6)] suc
    by (simp add: next_event_def default_options_def)
qed

text \<open>
  The witness takes for \<^verbatim>\<open>Math.random()\<close> the double written \<^verbatim>\<open>0.7\<close>, which lies below
  seven tenths: the exact product with 200 lies below 140, the double product is 140.
\<close>

theorem withRetries_backoff_witness:
  "is_double (3152519739159347 / 4503599627370496) \<and>
   ev_jitter (events (withRetries (\<lambda>i. Rejects (JObj [(''status'', JNum 429)]))
      (\<lambda>i. 3152519739159347 / 4503599627370496) default_options) ! 0) = 140 \<and>
   ev_timeout (events (withRetries (\<lambda>i. Rejects (JObj [(''status'', JNum 429)]))
      (\<lambda>i. 3152519739159347 / 4503599627370496) default_options) ! 0) = 640"
proof -
  let ?fn = "\<lambda>i::nat. Rejects (JObj [(''status'', JNum 429)])"
  let ?random = "\<lambda>i::nat. (3152519739159347 / 4503599627370496 :: rat)"
  have r: "\<forall>i<1. retryable_failure (?fn i)"
    by (simp add: retryable_failure_def retryable_status_def error_status_def js_or_def opt_field_def)
  have b: "1 \<le> retries default_options" by (simp add: default_options_def)
  have a: "1 \<le> (1::nat)" by simp
  have c: "is_double (?random (1 - 1))" by (simp add: is_double_seven_tenths)
  have d: "0 \<le> ?random (1 - 1)" by simp
  have e: "?random (1 - 1) < 1" by simp
  from withRetries_backoff [of 1 default_options ?fn ?random, OF a b r c d e]
  show ?thesis
    using is_double_seven_tenths jitter_seven_tenths by (simp add: default_options_def)
qed


section \<open>Properties of the text extractor\<close>

lemma opt_chain_undefined: "opt_chain JUndefined path = JUndefined \<or> path = []"
proof (induction path)
  case Nil
  then show ?case by simp
next
  case (Cons a path)
  have "opt_access JUndefined a = JUndefined"
    by (cases a) (simp_all add: opt_field_def opt_first_def)
  with Cons show ?case by auto
qed

lemma opt_chain_nullish:
  "nullish v \<Longrightarrow> path \<noteq> [] \<Longrightarrow> opt_chain v path = JUndefined"
proof (cases path)
  case Nil
  then show "nullish v \<Longrightarrow> path \<noteq> [] \<Longrightarrow> ?thesis" by simp
next
  case (Cons a as)
  assume "nullish v"
  then have "opt_access v a = JUndefined"
    by (cases a) (simp_all add: opt_field_def opt_first_def)
  then show ?thesis
    using Cons opt_chain_undefined [of as] by auto
qed

lemma dot_chain_truthy:
  "truthy (opt_chain v path) \<Longrightarrow> dot_chain v path = Inr (opt_chain v path)"
proof (induction path arbitrary: v)
  case Nil
  then show ?case by simp
next
  case (Cons a as)
  have nn: "\<not> nullish v"
  proof
    assume "nullish v"
    then have "opt_chain v (a # as) = JUndefined" by (rule opt_chain_nullish) simp
    with Cons.prems show False by simp
  qed
  then have "dot_access v a = Inr (opt_access v a)"
    by (cases a) (simp_all add: dot_field_def dot_first_def opt_field_def opt_first_def)
  then show ?case
    using Cons by (simp add: bind_thrown_def)
qed

lemma extractTextFromResponse_cases:
  "extractTextFromResponse r =
     (if truthy (opt_chain r candidate_parts_text) then opt_chain r candidate_parts_text
      else if truthy (opt_chain r candidate_content_text) then opt_chain r candidate_content_text
      else if truthy (opt_chain r output_content_text) then opt_chain r output_content_text
      else if is_string r then r
      else if truthy (opt_field r ''text'') then opt_field r ''text''
      else JNull)"
proof -
  have "truthy (opt_field r ''text'') \<Longrightarrow>
      dot_field r ''text'' = Inr (opt_field r ''text'')"
    using dot_chain_truthy [of r "[Field ''text'']"] by (simp add: bind_thrown_def split: sum.splits)
  then show ?thesis
    by (simp add: extractTextFromResponse_def extractTextFromResponse_try_def dot_chain_truthy)
qed

lemma string_has_no_shape:
  "opt_chain (JStr s) candidate_parts_text = JUndefined"
  "opt_chain (JStr s) candidate_content_text = JUndefined"
  "opt_chain (JStr s) output_content_text = JUndefined"
  "opt_field (JStr s) ''text'' = JUndefined"
  by (simp_all add: candidate_parts_text_def candidate_content_text_def output_content_text_def
      opt_field_def opt_first_def)

text \<open>
  Claim C5, as stated, fails on the empty string: it is a plain string, so the
  extractor returns it, which is neither a non-empty match nor \<^verbatim>\<open>null\<close>.
\<close>

theorem extractText_empty_string_counterexample:
  "extractTextFromResponse (JStr []) \<noteq> extractText_spec (JStr [])"
  by (simp add: extractTextFromResponse_cases string_has_no_shape extractText_spec_def
      response_shapes_def)

text \<open>
  Claim C5, amended. The extractor tries the shapes
  \<^verbatim>\<open>candidates[0].content.parts[0].text\<close>, \<^verbatim>\<open>candidates[0].content.text\<close>,
  \<^verbatim>\<open>output[0].content[0].text\<close>, the response itself if it is a string, and the top-level
  \<^verbatim>\<open>text\<close> in this order and returns the first non-empty match, \<^verbatim>\<open>null\<close> when there is
  none, except that a response that is a string is returned as it is also when it is
  empty. It never throws. It returns \<^verbatim>\<open>"X"\<close> for
  \<^verbatim>\<open>{candidates:[{content:{parts:[{text:"X"}]}}]}\<close>, \<^verbatim>\<open>null\<close> for \<^verbatim>\<open>{}\<close> and \<^verbatim>\<open>"X"\<close> for the
  string \<^verbatim>\<open>"X"\<close>.
\<close>

theorem extractTextFromResponse_priority:
  "extractTextFromResponse r =
     (if r = JStr [] then JStr [] else extractText_spec r) \<and>
   extractTextFromResponse
     (JObj [(''candidates'',
             JArr [JObj [(''content'', JObj [(''parts'', JArr [JObj [(''text'', JStr ''X'')]])])]])]) =
     JStr ''X'' \<and>
   extractTextFromResponse (JObj []) = JNull \<and>
   extractTextFromResponse (JStr ''X'') = JStr ''X''"
proof -
  have general: "extractTextFromResponse r =
     (if r = JStr [] then JStr [] else extractText_spec r)"
  proof (cases "is_string r")
    case True
    then obtain s where "r = JStr s" by (cases r) simp_all
    then show ?thesis
      by (simp add: extractTextFromResponse_cases string_has_no_shape extractText_spec_def
          response_shapes_def)
  next
    case False
    then have "r \<noteq> JStr []" by auto
    then show ?thesis
      using False
      by (simp add: extractTextFromResponse_cases extractText_spec_def response_shapes_def)
  qed
  have ex1: "extractTextFromResponse
     (JObj [(''candidates'',
             JArr [JObj [(''content'', JObj [(''parts'', JArr [JObj [(''text'', JStr ''X'')]])])]])]) =
     JStr ''X''"
    by (simp add: extractTextFromResponse_cases candidate_parts_text_def opt_field_def opt_first_def)
  have ex2: "extractTextFromResponse (JObj []) = JNull"
    by (simp add: extractTextFromResponse_cases candidate_parts_text_def candidate_content_text_def
        output_content_text_def opt_field_def opt_first_def)
  have ex3: "extractTextFromResponse (JStr ''X'') = JStr ''X''"
    by (simp add: extractTextFromResponse_cases string_has_no_shape)
  from general ex1 ex2 ex3 show ?thesis by blast
qed

theorem extractTextFromResponse_priority_witness:
  "extractTextFromResponse (JObj [(''text'', JStr ''hi'')]) = JStr ''hi''"
  using extractTextFromResponse_priority [of "JObj [(''text'', JStr ''hi'')]"]
  by (simp add: extractText_spec_def response_shapes_def candidate_parts_text_def
      candidate_content_text_def output_content_text_def opt_field_def opt_first_def)


section \<open>Properties of the tolerant JSON parser\<close>

lemma star_then_close_None: "star_then_close s = None \<longleftrightarrow> CHR ''}'' \<notin> set s"
  by (induction s) (auto split: option.splits)

lemma star_then_close_last:
  "CHR ''}'' \<notin> set post \<Longrightarrow>
   star_then_close (mid @ CHR ''}'' # post) = Some (mid @ [CHR ''}''])"
proof (induction mid)
  case Nil
  then have "star_then_close post = None" by (simp add: star_then_close_None)
  then show ?case by simp
next
  case (Cons c mid)
  then show ?case by simp
qed

lemma star_then_close_Some:
  "star_then_close s = Some m \<longleftrightarrow>
     (\<exists>mid post. s = mid @ CHR ''}'' # post \<and> CHR ''}'' \<notin> set post \<and> m = mid @ [CHR ''}''])"
proof
  assume m: "star_then_close s = Some m"
  then have "CHR ''}'' \<in> set s"
    using star_then_close_None [of s] by auto
  then obtain mid post where s: "s = mid @ CHR ''}'' # post" "CHR ''}'' \<notin> set post"
    using split_list_last [of "CHR ''}''" s] by blast
  with m star_then_close_last [of post mid] have "m = mid @ [CHR ''}'']" by simp
  with s show "\<exists>mid post. s = mid @ CHR ''}'' # post \<and> CHR ''}'' \<notin> set post \<and> m = mid @ [CHR ''}'']"
    by blast
next
  assume "\<exists>mid post. s = mid @ CHR ''}'' # post \<and> CHR ''}'' \<notin> set post \<and> m = mid @ [CHR ''}'']"
  then show "star_then_close s = Some m"
    using star_then_close_last by blast
qed

lemma regex_match_first_last:
  "CHR ''{'' \<notin> set pre \<Longrightarrow> CHR ''}'' \<notin> set post \<Longrightarrow>
   regex_match (pre @ CHR ''{'' # mid @ CHR ''}'' # post) = Some (CHR ''{'' # mid @ [CHR ''}''])"
proof (induction pre)
  case Nil
  then show ?case by (simp add: star_then_close_last)
next
  case (Cons c pre)
  then show ?case by auto
qed

lemma regex_match_None: "CHR ''}'' \<notin> set s \<Longrightarrow> regex_match s = None"
proof (induction s)
  case Nil
  then show ?case by simp
next
  case (Cons c s)
  then have "star_then_close s = None" by (simp add: star_then_close_None)
  with Cons show ?case by simp
qed

lemma regex_match_Some:
  "regex_match s = Some m \<longleftrightarrow>
     (\<exists>pre mid post. s = pre @ CHR ''{'' # mid @ CHR ''}'' # post \<and>
        CHR ''{'' \<notin> set pre \<and> CHR ''}'' \<notin> set post \<and> m = CHR ''{'' # mid @ [CHR ''}''])"
proof
  assume "regex_match s = Some m"
  then show "\<exists>pre mid post. s = pre @ CHR ''{'' # mid @ CHR ''}'' # post \<and>
        CHR ''{'' \<notin> set pre \<and> CHR ''}'' \<notin> set post \<and> m = CHR ''{'' # mid @ [CHR ''}'']"
  proof (induction s)
    case Nil
    then show ?case by simp
  next
    case (Cons c s)
    show ?case
    proof (cases "match_here (c # s)")
      case (Some m')
      with Cons.prems have mm: "m' = m" by simp
      from Some have c: "c = CHR ''{''" by (simp split: if_splits)
      with Some mm obtain m'' where "star_then_close s = Some m''" "m = c # m''"
        by auto
      then obtain mid post where "s = mid @ CHR ''}'' # post" "CHR ''}'' \<notin> set post"
          "m'' = mid @ [CHR ''}'']"
        using star_then_close_Some [of s m''] by blast
      with c \<open>m = c # m''\<close>
      have "c # s = [] @ CHR ''{'' # mid @ CHR ''}'' # post \<and> CHR ''{'' \<notin> set [] \<and>
          CHR ''}'' \<notin> set post \<and> m = CHR ''{'' # mid @ [CHR ''}'']"
        by simp
      then show ?thesis by blast
    next
      case None
      with Cons.prems have rest: "regex_match s = Some m" by simp
      from Cons.IH [OF rest] obtain pre mid post where
        s: "s = pre @ CHR ''{'' # mid @ CHR ''}'' # post" "CHR ''{'' \<notin> set pre"
           "CHR ''}'' \<notin> set post" "m = CHR ''{'' # mid @ [CHR ''}'']"
        by blast
      have "c \<noteq> CHR ''{''"
      proof
        assume "c = CHR ''{''"
        with None have "star_then_close s = None" by simp
        then have "CHR ''}'' \<notin> set s" by (simp add: star_then_close_None)
        with s(1) show False by simp
      qed
      with s have "c # s = (c # pre) @ CHR ''{'' # mid @ CHR ''}'' # post \<and>
          CHR ''{'' \<notin> set (c # pre) \<and> CHR ''}'' \<notin> set post \<and> m = CHR ''{'' # mid @ [CHR ''}'']"
        by simp
      then show ?thesis by blast
    qed
  qed
next
  assume "\<exists>pre mid post. s = pre @ CHR ''{'' # mid @ CHR ''}'' # post \<and>
        CHR ''{'' \<notin> set pre \<and> CHR ''}'' \<notin> set post \<and> m = CHR ''{'' # mid @ [CHR ''}'']"
  then show "regex_match s = Some m"
    using regex_match_first_last by blast
qed

lemma upto_matching_close_nonempty: "upto_matching_close depth s \<noteq> Some []"
  by (induction s arbitrary: depth) (auto split: if_splits)

lemma upto_matching_close_ends:
  "upto_matching_close depth s = Some b \<Longrightarrow> \<exists>mid. b = mid @ [CHR ''}'']"
proof (induction s arbitrary: depth b)
  case Nil
  then show ?case by simp
next
  case (Cons c s)
  show ?case
  proof (cases "b = [c]")
    case True
    with Cons.prems have "c = CHR ''}''"
      using upto_matching_close_nonempty by (auto split: if_splits)
    with True show ?thesis by simp
  next
    case False
    with Cons.prems obtain d b' where "upto_matching_close d s = Some b'" "b = c # b'"
      by (auto split: if_splits)
    with Cons.IH [of d b'] show ?thesis by auto
  qed
qed

lemma matching_brace_block_shape:
  "matching_brace_block text = Some b \<Longrightarrow> \<exists>mid. b = CHR ''{'' # mid @ [CHR ''}'']"
proof -
  assume b: "matching_brace_block text = Some b"
  then obtain c rest where d: "dropWhile (\<lambda>c. c \<noteq> CHR ''{'') text = c # rest"
    by (auto simp: matching_brace_block_def split: list.splits)
  then have c: "c = CHR ''{''"
    using hd_dropWhile [of "\<lambda>c. c \<noteq> CHR ''{''" "text"] by auto
  from b d obtain b' where "upto_matching_close 0 rest = Some b'" "b = c # b'"
    by (auto simp: matching_brace_block_def)
  with c upto_matching_close_ends [of 0 rest b'] show ?thesis by auto
qed

lemma success_not_failure:
  "parse_success d \<noteq> no_text_to_parse" "parse_success d \<noteq> parse_failure reason raw"
  by (simp_all add: parse_success_def no_text_to_parse_def parse_failure_def)

lemma safeParseJSON_shape:
  "(\<exists>d. safeParseJSON parse v = parse_success d) \<or> safeParseJSON parse v = no_text_to_parse \<or>
   (\<exists>reason raw. safeParseJSON parse v = parse_failure reason raw)"
proof (cases v)
  case (JStr s)
  then show ?thesis
    by (cases "parse s"; cases "regex_match s"; cases "parse (the (regex_match s))") auto
qed simp_all

text \<open>
  Claim C6. \<^verbatim>\<open>safeParseJSON\<close> returns, for every input and whatever \<^verbatim>\<open>JSON.parse\<close> does,
  exactly one of a success and a failure, and never throws: an empty string or a value
  that is not a string gives the failure \<^verbatim>\<open>No text to parse\<close>; a string that parses gives
  the success of the parsed value; otherwise, if the brace pattern matches, the success
  of the parse of the match, or the failure \<^verbatim>\<open>Found JSON-like block but failed to parse\<close>
  with the match as raw text; and the failure \<^verbatim>\<open>Response is not valid JSON\<close> with the whole
  text when the pattern does not match. On the model of the JSON grammar, the text
  \<^verbatim>\<open>Here is the answer: {"score":5,"feedback":"fine"} Thanks!\<close> gives the success of
  \<^verbatim>\<open>{score:5, feedback:"fine"}\<close>, and \<^verbatim>\<open>no json here\<close> gives the failure
  \<^verbatim>\<open>Response is not valid JSON\<close> with \<^verbatim>\<open>no json here\<close>.
\<close>

theorem safeParseJSON_outcomes:
  \<open>(\<not> is_string v \<or> v = JStr [] \<longrightarrow> safeParseJSON parse v = no_text_to_parse) \<and>
   (s \<noteq> [] \<longrightarrow> parse s = Some d \<longrightarrow> safeParseJSON parse (JStr s) = parse_success d) \<and>
   (s \<noteq> [] \<longrightarrow> parse s = None \<longrightarrow> regex_match s = Some m \<longrightarrow> parse m = Some d \<longrightarrow>
      safeParseJSON parse (JStr s) = parse_success d) \<and>
   (s \<noteq> [] \<longrightarrow> parse s = None \<longrightarrow> regex_match s = Some m \<longrightarrow> parse m = None \<longrightarrow>
      safeParseJSON parse (JStr s) =
        parse_failure ''Found JSON-like block but failed to parse'' (JStr m)) \<and>
   (s \<noteq> [] \<longrightarrow> parse s = None \<longrightarrow> regex_match s = None \<longrightarrow>
      safeParseJSON parse (JStr s) = parse_failure ''Response is not valid JSON'' (JStr s)) \<and>
   ((\<exists>d. safeParseJSON parse v = parse_success d) \<noteq>
      (safeParseJSON parse v = no_text_to_parse \<or>
       (\<exists>reason raw. safeParseJSON parse v = parse_failure reason raw))) \<and>
   safeParseJSON JSON_parse
       (JStr ''Here is the answer: {"score":5,"feedback":"fine"} Thanks!'') =
     parse_success (JObj [(''score'', JNum 5), (''feedback'', JStr ''fine'')]) \<and>
   safeParseJSON JSON_parse (JStr ''no json here'') =
     parse_failure ''Response is not valid JSON'' (JStr ''no json here'')\<close>
proof -
  have a: "\<not> is_string v \<or> v = JStr [] \<longrightarrow> safeParseJSON parse v = no_text_to_parse"
    by (cases v) simp_all
  have b: "s \<noteq> [] \<longrightarrow> parse s = Some d \<longrightarrow> safeParseJSON parse (JStr s) = parse_success d"
    by simp
  have c: "s \<noteq> [] \<longrightarrow> parse s = None \<longrightarrow> regex_match s = Some m \<longrightarrow> parse m = Some d \<longrightarrow>
      safeParseJSON parse (JStr s) = parse_success d"
    by simp
  have d: "s \<noteq> [] \<longrightarrow> parse s = None \<longrightarrow> regex_match s = Some m \<longrightarrow> parse m = None \<longrightarrow>
      safeParseJSON parse (JStr s) =
        parse_failure ''Found JSON-like block but failed to parse'' (JStr m)"
    by simp
  have e: "s \<noteq> [] \<longrightarrow> parse s = None \<longrightarrow> regex_match s = None \<longrightarrow>
      safeParseJSON parse (JStr s) = parse_failure ''Response is not valid JSON'' (JStr s)"
    by simp
  have f: "(\<exists>d. safeParseJSON parse v = parse_success d) \<noteq>
      (safeParseJSON parse v = no_text_to_parse \<or>
       (\<exists>reason raw. safeParseJSON parse v = parse_failure reason raw))"
    using safeParseJSON_shape [of parse v] success_not_failure by metis
  have g: \<open>safeParseJSON JSON_parse
       (JStr ''Here is the answer: {"score":5,"feedback":"fine"} Thanks!'') =
     parse_success (JObj [(''score'', JNum 5), (''feedback'', JStr ''fine'')])\<close>
    by code_simp
  have h: "safeParseJSON JSON_parse (JStr ''no json here'') =
     parse_failure ''Response is not valid JSON'' (JStr ''no json here'')"
    by code_simp
  from a b c d e f g h show ?thesis by blast
qed

theorem safeParseJSON_outcomes_witness:
  \<open>JSON_parse ''{"score":5, invalid}'' = None \<and>
   regex_match ''{"score":5, invalid}'' = Some ''{"score":5, invalid}'' \<and>
   safeParseJSON JSON_parse (JStr ''{"score":5, invalid}'') =
     parse_failure ''Found JSON-like block but failed to parse'' (JStr ''{"score":5, invalid}'')\<close>
proof -
  have p: \<open>JSON_parse ''{"score":5, invalid}'' = None\<close> by code_simp
  have r: \<open>regex_match ''{"score":5, invalid}'' = Some ''{"score":5, invalid}''\<close> by code_simp
  have n: \<open>''{"score":5, invalid}'' \<noteq> []\<close> by simp
  from safeParseJSON_outcomes
    [of _ JSON_parse \<open>''{"score":5, invalid}''\<close> _ \<open>''{"score":5, invalid}''\<close>] p r n
  show ?thesis by blast
qed

text \<open>
  Claim C7, as stated, fails on a JSON object followed by prose with a later closing
  brace: the block from the first opening brace to its matching closing brace parses,
  yet the candidate tried runs on to the last closing brace of the text and does not.
\<close>

theorem stray_brace_counterexample:
  \<open>matching_brace_block ''Result: {"score":5} ends with }'' = Some ''{"score":5}'' \<and>
   JSON_parse ''{"score":5}'' = Some (JObj [(''score'', JNum 5)]) \<and>
   JSON_parse ''Result: {"score":5} ends with }'' = None \<and>
   safeParseJSON JSON_parse (JStr ''Result: {"score":5} ends with }'') =
     parse_failure ''Found JSON-like block but failed to parse'' (JStr ''{"score":5} ends with }'') \<and>
   safeParseJSON JSON_parse (JStr ''Result: {"score":5} ends with }'') \<noteq>
     parse_success (JObj [(''score'', JNum 5)])\<close>
  by code_simp

text \<open>
  Claim C7, amended. When the whole text does not parse, the fallback candidate is the
  substring from the first opening brace to the last closing brace of the text (there is
  one exactly when a closing brace follows the first opening brace); for every text where
  this candidate parses, \<^verbatim>\<open>safeParseJSON\<close> returns the success of its value. The candidate
  is the block that ends at the matching closing brace whenever no closing brace follows
  that block.
\<close>

theorem fallback_candidate_first_to_last_brace:
  "(regex_match s = Some m \<longleftrightarrow>
      (\<exists>pre mid post. s = pre @ CHR ''{'' # mid @ CHR ''}'' # post \<and>
         CHR ''{'' \<notin> set pre \<and> CHR ''}'' \<notin> set post \<and> m = CHR ''{'' # mid @ [CHR ''}''])) \<and>
   (parse s = None \<longrightarrow> regex_match s = Some m \<longrightarrow> parse m = Some d \<longrightarrow>
      safeParseJSON parse (JStr s) = parse_success d) \<and>
   (matching_brace_block s = Some b \<longrightarrow> s = pre @ b @ post \<longrightarrow>
      CHR ''{'' \<notin> set pre \<longrightarrow> CHR ''}'' \<notin> set post \<longrightarrow> regex_match s = Some b)"
proof -
  have b: "parse s = None \<longrightarrow> regex_match s = Some m \<longrightarrow> parse m = Some d \<longrightarrow>
      safeParseJSON parse (JStr s) = parse_success d"
    by (cases s) simp_all
  have c: "matching_brace_block s = Some b \<longrightarrow> s = pre @ b @ post \<longrightarrow>
      CHR ''{'' \<notin> set pre \<longrightarrow> CHR ''}'' \<notin> set post \<longrightarrow> regex_match s = Some b"
  proof (intro impI)
    assume "matching_brace_block s = Some b" and s: "s = pre @ b @ post"
      and pre: "CHR ''{'' \<notin> set pre" and post: "CHR ''}'' \<notin> set post"
    then obtain mid where "b = CHR ''{'' # mid @ [CHR ''}'']"
      using matching_brace_block_shape by blast
    with s have "s = pre @ CHR ''{'' # mid @ CHR ''}'' # post" by simp
    with regex_match_first_last [OF pre post, of mid] \<open>b = CHR ''{'' # mid @ [CHR ''}'']\<close>
    show "regex_match s = Some b" by simp
  qed
  from regex_match_Some [of s m] b c show ?thesis by blast
qed

theorem fallback_candidate_first_to_last_brace_witness:
  \<open>regex_match ''Result: {"score":5} ends with }'' = Some ''{"score":5} ends with }'' \<and>
   regex_match ''Sure! {"score":5} Bye'' = Some ''{"score":5}'' \<and>
   safeParseJSON JSON_parse (JStr ''Sure! {"score":5} Bye'') =
     parse_success (JObj [(''score'', JNum 5)])\<close>
proof -
  have p: \<open>JSON_parse ''Sure! {"score":5} Bye'' = None\<close> by code_simp
  have q: \<open>JSON_parse ''{"score":5}'' = Some (JObj [(''score'', JNum 5)])\<close> by code_simp
  have r: \<open>regex_match ''Sure! {"score":5} Bye'' = Some ''{"score":5}''\<close> by code_simp
  have r': \<open>regex_match ''Result: {"score":5} ends with }'' = Some ''{"score":5} ends with }''\<close>
    by code_simp
  from fallback_candidate_first_to_last_brace
    [of \<open>''Sure! {"score":5} Bye''\<close> \<open>''{"score":5}''\<close> JSON_parse] p q r r'
  show ?thesis by blast
qed


section \<open>Properties of the evaluate route\<close>

lemma loop_calls_grow:
  "attempt < retries opts \<Longrightarrow>
   ncalls < calls (withRetries_loop fn random opts attempt ncalls evs)"
proof (induction "retries opts - attempt" arbitrary: attempt ncalls evs)
  case 0
  then show ?case by simp
next
  case (Suc d)
  note lt = Suc.prems
  show ?case
  proof (cases "fn ncalls")
    case (Resolves v)
    then show ?thesis using lt by (simp add: loop_resolves)
  next
    case (Rejects err)
    show ?thesis
    proof (cases "retryable_status (error_status err)")
      case False
      then show ?thesis using Rejects lt by (simp add: loop_fatal)
    next
      case True
      then have now: "retryable_failure (fn ncalls)"
        using Rejects by (simp add: retryable_failure_def)
      show ?thesis
      proof (cases "Suc attempt < retries opts")
        case False
        then show ?thesis
          by (simp add: loop_retry [where fn = fn and ncalls = ncalls, OF lt now] loop_done)
      next
        case more: True
        have "d = retries opts - Suc attempt" using Suc.hyps(2) by simp
        from Suc.hyps(1) [OF this more, of "Suc ncalls"] show ?thesis
          by (simp add: loop_retry [where fn = fn and ncalls = ncalls, OF lt now] Suc_lessD)
      qed
    qed
  qed
qed

lemma withRetries_default_calls: "0 < calls (withRetries fn random default_options)"
  using loop_calls_grow [of 0 default_options 0 fn random "[]"]
  by (simp add: withRetries_def default_options_def)

lemma evaluate_catch_status:
  "status_code (evaluate_catch error) = (if overloaded_code (error_code error) then 503 else 500)"
  by (simp add: evaluate_catch_def Let_def)


text \<open>The only error the building of the prompt throws.\<close>

lemma to_string_thrown:
  "to_string shown v = Inl e \<Longrightarrow> e = TypeError_primitive"
  and join_elements_thrown:
  "join_elements shown xs = Inl e \<Longrightarrow> e = TypeError_primitive"
proof (induction shown v and shown xs rule: to_string_join_elements.induct)
  case (9 shown x xs)
  then show ?case
    by (auto simp: bind_thrown_def split: sum.splits if_splits)
qed (auto split: if_splits)

lemma build_prompt_thrown:
  "build_prompt shown topic question answer = Inl e \<Longrightarrow> e = TypeError_primitive"
  using to_string_thrown [of shown topic e] to_string_thrown [of shown question e]
    to_string_thrown [of shown answer e]
  by (auto simp: build_prompt_def bind_thrown_def split: sum.splits)

lemma evaluate_catch_primitive:
  "evaluate_catch TypeError_primitive =
     \<lparr>status_code = 500,
      json = JObj [(''success'', JBool False),
                   (''error'', JStr ''Cannot convert object to primitive value'')]\<rparr>"
  by (simp add: evaluate_catch_def TypeError_primitive_def new_Error_def error_code_def js_or_def
      opt_field_def overloaded_code_def js_coalesce_def)

lemma evaluate_invalid:
  "\<not> nullish body \<Longrightarrow>
   \<not> truthy (get_field body ''topic'') \<or> \<not> truthy (get_field body ''question'') \<or>
     get_field body ''answer'' = JUndefined \<Longrightarrow>
   evaluate parse keys shown generateContent random body =
     \<lparr>res = \<lparr>status_code = 400, json = missing_fields_body\<rparr>, remote_calls = 0, retries_made = []\<rparr>"
  by (simp add: evaluate_def Let_def)

lemma evaluate_prompt_thrown:
  assumes "\<not> nullish body" "truthy (get_field body ''topic'')" "truthy (get_field body ''question'')"
    "get_field body ''answer'' \<noteq> JUndefined"
    and "build_prompt shown (get_field body ''topic'') (get_field body ''question'')
           (get_field body ''answer'') = Inl e"
  shows "evaluate parse keys shown generateContent random body =
     \<lparr>res = \<lparr>status_code = 500,
             json = JObj [(''success'', JBool False),
                          (''error'', JStr ''Cannot convert object to primitive value'')]\<rparr>,
      remote_calls = 0, retries_made = []\<rparr>"
  using assms build_prompt_thrown [OF assms(5)]
  by (simp add: evaluate_def Let_def evaluate_catch_primitive)

lemma evaluate_valid:
  assumes "\<not> nullish body" "truthy (get_field body ''topic'')" "truthy (get_field body ''question'')"
    "get_field body ''answer'' \<noteq> JUndefined"
    and "build_prompt shown (get_field body ''topic'') (get_field body ''question'')
           (get_field body ''answer'') = Inr prompt"
  shows "evaluate parse keys shown generateContent random body =
     (let run = withRetries (generateContent prompt) random default_options in
      \<lparr>res =
         (case result run of
            Inl error \<Rightarrow> evaluate_catch error
          | Inr reply \<Rightarrow>
              if \<not> truthy (extractTextFromResponse reply)
              then \<lparr>status_code = 502, json = no_text_body keys reply\<rparr>
              else if truthy (get_field (safeParseJSON parse (extractTextFromResponse reply)) ''ok'')
              then \<lparr>status_code = 200,
                    json = evaluation_body (safeParseJSON parse (extractTextFromResponse reply))\<rparr>
              else \<lparr>status_code = 200,
                    json = not_parsed_body (safeParseJSON parse (extractTextFromResponse reply))
                             (extractTextFromResponse reply)\<rparr>),
       remote_calls = calls run, retries_made = events run\<rparr>)"
  using assms by (simp add: evaluate_def Let_def split: sum.splits)

lemma evaluate_valid_calls:
  assumes "\<not> nullish body" "truthy (get_field body ''topic'')" "truthy (get_field body ''question'')"
    "get_field body ''answer'' \<noteq> JUndefined"
    and "build_prompt shown (get_field body ''topic'') (get_field body ''question'')
           (get_field body ''answer'') = Inr prompt"
  shows "remote_calls (evaluate parse keys shown generateContent random body) =
           calls (withRetries (generateContent prompt) random default_options)"
  by (simp add: evaluate_valid [OF assms] Let_def)

lemma evaluate_valid_status:
  assumes "\<not> nullish body" "truthy (get_field body ''topic'')" "truthy (get_field body ''question'')"
    "get_field body ''answer'' \<noteq> JUndefined"
  shows "status_code (res (evaluate parse keys shown generateContent random body)) \<in> {200, 500, 502, 503}"
proof (cases "build_prompt shown (get_field body ''topic'') (get_field body ''question'')
           (get_field body ''answer'')")
  case (Inl e)
  then show ?thesis by (simp add: evaluate_prompt_thrown [OF assms Inl])
next
  case (Inr prompt)
  then show ?thesis
    by (simp add: evaluate_valid [OF assms Inr] Let_def evaluate_catch_status split: sum.splits)
qed

text \<open>
  Claim C8, as stated, fails on an empty answer: the request is not rejected, the
  remote model is called and the response is not the client error.
\<close>

theorem evaluate_empty_answer_counterexample:
  \<open>get_field (JObj [(''topic'', JStr ''Java''), (''question'', JStr ''What is OOP?''),
                     (''answer'', JStr [])]) ''answer'' = JStr [] \<and>
   status_code (res (evaluate JSON_parse (\<lambda>v. []) (\<lambda>n. [])
     (\<lambda>prompt i. Resolves (JStr ''{"score":7}'')) (\<lambda>i. 0)
     (JObj [(''topic'', JStr ''Java''), (''question'', JStr ''What is OOP?''),
            (''answer'', JStr [])]))) = 200 \<and>
   remote_calls (evaluate JSON_parse (\<lambda>v. []) (\<lambda>n. [])
     (\<lambda>prompt i. Resolves (JStr ''{"score":7}'')) (\<lambda>i. 0)
     (JObj [(''topic'', JStr ''Java''), (''question'', JStr ''What is OOP?''),
            (''answer'', JStr [])])) = 1\<close>
  by code_simp

text \<open>
  Claim C8, amended. For every request body in which topic or question is missing or
  empty (falsy), or answer is missing (\<^verbatim>\<open>undefined\<close>), the handler responds with the
  client error 400 and does not call the remote model; an answer that is present is
  accepted also when it is empty.
\<close>

theorem evaluate_rejects_missing_fields:
  assumes "\<not> nullish body"
    and "\<not> truthy (get_field body ''topic'') \<or> \<not> truthy (get_field body ''question'') \<or>
         get_field body ''answer'' = JUndefined"
  shows "res (evaluate parse keys shown generateContent random body) =
           \<lparr>status_code = 400,
            json = JObj [(''success'', JBool False),
                         (''error'', JStr ''Missing required fields: topic, question, answer'')]\<rparr> \<and>
         remote_calls (evaluate parse keys shown generateContent random body) = 0"
  by (simp add: evaluate_invalid [OF assms] missing_fields_body_def)

theorem evaluate_rejects_missing_fields_witness:
  "status_code (res (evaluate JSON_parse (\<lambda>v. []) (\<lambda>n. []) (\<lambda>prompt i. Resolves (JStr ''ok''))
     (\<lambda>i. 0)
     (JObj [(''topic'', JStr ''Java''), (''question'', JStr []), (''answer'', JStr ''Object.'')]))) = 400 \<and>
   remote_calls (evaluate JSON_parse (\<lambda>v. []) (\<lambda>n. []) (\<lambda>prompt i. Resolves (JStr ''ok''))
     (\<lambda>i. 0)
     (JObj [(''topic'', JStr ''Java''), (''question'', JStr []), (''answer'', JStr ''Object.'')])) = 0"
proof -
  let ?body = "JObj [(''topic'', JStr ''Java''), (''question'', JStr []), (''answer'', JStr ''Object.'')]"
  have a: "\<not> nullish ?body" by simp
  have b: "\<not> truthy (get_field ?body ''topic'') \<or> \<not> truthy (get_field ?body ''question'') \<or>
         get_field ?body ''answer'' = JUndefined"
    by simp
  from evaluate_rejects_missing_fields [OF a b, of JSON_parse "\<lambda>v. []" "\<lambda>n. []"
      "\<lambda>prompt i. Resolves (JStr ''ok'')" "\<lambda>i. 0"]
  show ?thesis by simp
qed




text \<open>
  Claim C10, as stated, fails on a request whose answer is the empty string and whose
  topic is an object with a member named \<^verbatim>\<open>toString\<close>: the request passes the
  validation, but the building of the prompt throws, the response is 500 and the
  remote model is not called.
\<close>

theorem evaluate_unbuildable_prompt_counterexample:
  \<open>get_field (JObj [(''topic'', JObj [(''toString'', JNum 1)]),
                     (''question'', JStr ''What is OOP?''), (''answer'', JStr [])]) ''answer'' =
     JStr [] \<and>
   truthy (get_field (JObj [(''topic'', JObj [(''toString'', JNum 1)]),
                     (''question'', JStr ''What is OOP?''), (''answer'', JStr [])]) ''topic'') \<and>
   truthy (get_field (JObj [(''topic'', JObj [(''toString'', JNum 1)]),
                     (''question'', JStr ''What is OOP?''), (''answer'', JStr [])]) ''question'') \<and>
   status_code (res (evaluate JSON_parse (\<lambda>v. []) (\<lambda>n. [])
     (\<lambda>prompt i. Resolves (JStr ''{"score":7}'')) (\<lambda>i. 0)
     (JObj [(''topic'', JObj [(''toString'', JNum 1)]),
            (''question'', JStr ''What is OOP?''), (''answer'', JStr [])]))) = 500 \<and>
   remote_calls (evaluate JSON_parse (\<lambda>v. []) (\<lambda>n. [])
     (\<lambda>prompt i. Resolves (JStr ''{"score":7}'')) (\<lambda>i. 0)
     (JObj [(''topic'', JObj [(''toString'', JNum 1)]),
            (''question'', JStr ''What is OOP?''), (''answer'', JStr [])])) = 0\<close>
  by code_simp

text \<open>
  Claim C10, amended. The validation is asymmetric: the handler responds 400, without
  calling the remote model, exactly when topic or question is falsy (the empty string,
  0 and \<^verbatim>\<open>null\<close> among them) or answer is \<^verbatim>\<open>undefined\<close>. The remote model is called exactly
  when the request passes this validation and the prompt can be built from the three
  fields. With a truthy topic and question that convert to strings, an answer that is
  the empty string, \<^verbatim>\<open>null\<close> or a number passes the validation and the remote model is
  called.
\<close>

theorem evaluate_validation_asymmetry:
  assumes "\<not> nullish body"
  shows
    "(status_code (res (evaluate parse keys shown generateContent random body)) = 400 \<longleftrightarrow>
        \<not> truthy (get_field body ''topic'') \<or> \<not> truthy (get_field body ''question'') \<or>
        get_field body ''answer'' = JUndefined) \<and>
     (0 < remote_calls (evaluate parse keys shown generateContent random body) \<longleftrightarrow>
        truthy (get_field body ''topic'') \<and> truthy (get_field body ''question'') \<and>
        get_field body ''answer'' \<noteq> JUndefined \<and>
        (\<exists>prompt. build_prompt shown (get_field body ''topic'') (get_field body ''question'')
                    (get_field body ''answer'') = Inr prompt)) \<and>
     (get_field body ''topic'' = JStr [] \<or> get_field body ''topic'' = JNum 0 \<or>
      get_field body ''topic'' = JNull \<or>
      get_field body ''question'' = JStr [] \<or> get_field body ''question'' = JNum 0 \<or>
      get_field body ''question'' = JNull \<longrightarrow>
        status_code (res (evaluate parse keys shown generateContent random body)) = 400 \<and>
        remote_calls (evaluate parse keys shown generateContent random body) = 0) \<and>
     (truthy (get_field body ''topic'') \<and> truthy (get_field body ''question'') \<and>
      to_string shown (get_field body ''topic'') = Inr t \<and>
      to_string shown (get_field body ''question'') = Inr q \<and>
      (get_field body ''answer'' = JStr [] \<or> get_field body ''answer'' = JNull \<or>
       get_field body ''answer'' = JNum n) \<longrightarrow>
        status_code (res (evaluate parse keys shown generateContent random body)) \<noteq> 400 \<and>
        0 < remote_calls (evaluate parse keys shown generateContent random body))"
proof (cases "\<not> truthy (get_field body ''topic'') \<or> \<not> truthy (get_field body ''question'') \<or>
        get_field body ''answer'' = JUndefined")
  case True
  from evaluate_invalid [OF assms True, of parse keys shown generateContent random] True
  show ?thesis by auto
next
  case False
  let ?E = "evaluate parse keys shown generateContent random body"
  let ?built = "build_prompt shown (get_field body ''topic'') (get_field body ''question'')
      (get_field body ''answer'')"
  from False have v: "truthy (get_field body ''topic'')" "truthy (get_field body ''question'')"
    "get_field body ''answer'' \<noteq> JUndefined"
    by simp_all
  have st: "status_code (res ?E) \<noteq> 400"
    using evaluate_valid_status [OF assms v, of parse keys shown generateContent random] by auto
  have ca: "0 < remote_calls ?E \<longleftrightarrow> (\<exists>prompt. ?built = Inr prompt)"
  proof (cases ?built)
    case (Inl e)
    then show ?thesis by (simp add: evaluate_prompt_thrown [OF assms v Inl])
  next
    case (Inr prompt)
    then show ?thesis
      using evaluate_valid_calls [OF assms v Inr, of parse keys generateContent random]
        withRetries_default_calls [of "generateContent prompt" random]
      by simp
  qed
  have bu: "to_string shown (get_field body ''topic'') = Inr t \<and>
      to_string shown (get_field body ''question'') = Inr q \<and>
      (get_field body ''answer'' = JStr [] \<or> get_field body ''answer'' = JNull \<or>
       get_field body ''answer'' = JNum n) \<longrightarrow> (\<exists>prompt. ?built = Inr prompt)"
    by (auto simp: build_prompt_def bind_thrown_def)
  from False st ca bu show ?thesis by auto
qed

theorem evaluate_validation_asymmetry_witness:
  "to_string (\<lambda>n. []) (JStr ''Java'') = Inr ''Java'' \<and>
   status_code (res (evaluate JSON_parse (\<lambda>v. []) (\<lambda>n. []) (\<lambda>prompt i. Resolves (JObj [])) (\<lambda>i. 0)
     (JObj [(''topic'', JStr ''Java''), (''question'', JStr ''What is OOP?''),
            (''answer'', JNull)]))) \<noteq> 400 \<and>
   0 < remote_calls (evaluate JSON_parse (\<lambda>v. []) (\<lambda>n. []) (\<lambda>prompt i. Resolves (JObj [])) (\<lambda>i. 0)
     (JObj [(''topic'', JStr ''Java''), (''question'', JStr ''What is OOP?''),
            (''answer'', JNull)]))"
proof -
  let ?body = "JObj [(''topic'', JStr ''Java''), (''question'', JStr ''What is OOP?''),
            (''answer'', JNull)]"
  let ?shown = "\<lambda>n::rat. []::string"
  have a: "\<not> nullish ?body" by simp
  have b: "truthy (get_field ?body ''topic'') \<and> truthy (get_field ?body ''question'') \<and>
      to_string ?shown (get_field ?body ''topic'') = Inr ''Java'' \<and>
      to_string ?shown (get_field ?body ''question'') = Inr ''What is OOP?'' \<and>
      (get_field ?body ''answer'' = JStr [] \<or> get_field ?body ''answer'' = JNull \<or>
       get_field ?body ''answer'' = JNum 0)"
    by simp
  have c: "to_string ?shown (JStr ''Java'') = Inr ''Java''" by simp
  from evaluate_validation_asymmetry [OF a, of JSON_parse "\<lambda>v. []" ?shown
      "\<lambda>prompt i. Resolves (JObj [])" "\<lambda>i. 0" "''Java''" "''What is OOP?''" 0] b c
  show ?thesis by blast
qed

end
